theory Spec2Isabelle
  imports
    Main
    "HOL-Library.Char_ord"
    "HOL-Library.List_Lexorder"
    "HOL-Library.AList"
    "HOL-Library.Word"
begin

section \<open>The retrieval engine of services/retrival_engine.py\<close>

text \<open>
  The class \<open>RetrivalEngine\<close> sits in front of three collaborators that are not part of
  the file: the embedding cache (\<open>EmbeddingCache.get_embedding\<close>), the remote vector
  index (\<open>upsert\<close>, \<open>query\<close>, \<open>delete\<close>) and the file system holding the pickled
  retrieval cache. The engine's own code is embedded below function by function; the
  collaborators are parameters, collected in the record \<open>env\<close>. Each of them may
  depend on everything that was asked of the outside world before, so it receives the
  list of calls made so far (the \<open>trace\<close>). Output written with \<open>print\<close> is left out.
\<close>

subsection \<open>Python values\<close>

text \<open>
  A Python float is passed around by the engine and never computed with; it is kept as
  its IEEE-754 binary64 bit pattern. A \<open>dict\<close> is an association list in insertion
  order with pairwise distinct keys. Strings are lists of characters with code points
  below 256, ordered as Python orders \<open>str\<close>: lexicographically by code point.
\<close>

type_synonym pyfloat = "64 word"

type_synonym vector = "pyfloat list"

datatype pyval =
    PyNone
  | PyBool bool
  | PyInt int
  | PyFloat pyfloat
  | PyStr string
  | PyList "pyval list"
  | PyDict "(string \<times> pyval) list"

type_synonym 'v dict = "(string \<times> 'v) list"

text \<open>\<open>d[k] = v\<close>: an existing key keeps its position, a new key goes last.\<close>

definition setitem :: "'v dict \<Rightarrow> string \<Rightarrow> 'v \<Rightarrow> 'v dict" where
  "setitem d k v = AList.update k v d"

text \<open>\<open>d.get(k)\<close>, and \<open>k in d\<close> as \<open>getitem d k \<noteq> None\<close>.\<close>

definition getitem :: "'v dict \<Rightarrow> string \<Rightarrow> 'v option" where
  "getitem d k = map_of d k"

text \<open>Exceptions: the \<open>ValueError\<close> of \<open>bulk_add_items\<close>, \<open>IndexError\<close> of a list
  subscript, and whatever a collaborator raises (any subclass of \<open>Exception\<close>).\<close>

datatype exn = ValueError string | IndexError | Raised string

subsection \<open>Records exchanged with the index\<close>

text \<open>The dictionaries \<open>{"id", "values", "metadata"}\<close> handed to \<open>upsert\<close>.\<close>

record vec =
  vec_id :: string
  vec_values :: vector
  vec_metadata :: "pyval dict"

text \<open>A match of a query response; it carries more than the engine keeps.\<close>

record match =
  match_id :: string
  match_score :: pyfloat
  match_metadata :: "pyval dict"
  match_values :: vector

text \<open>The dictionaries \<open>{"id", "score", "metadata"}\<close> returned by \<open>get_retrivals\<close>.\<close>

record recommendation =
  rec_id :: string
  rec_score :: pyfloat
  rec_metadata :: "pyval dict"

type_synonym cache = "recommendation list dict"

subsection \<open>The outside world\<close>

text \<open>What has been asked of the collaborators, in order.\<close>

datatype event =
    EvGetEmbedding string
  | EvUuid4
  | EvUpsert "vec list"
  | EvQuery vector int "pyval dict option"
  | EvDelete "string list"
  | EvDump cache

text \<open>The file \<open>retrieval_cache.pkl\<close>: absent, present but not loadable, or holding a
  pickled cache.\<close>

datatype snapshot = NoFile | Unreadable | Stored cache

text \<open>
  The two steps of \<open>with open(file, "wb") as f: pickle.dump(cache, f)\<close>: \<open>open\<close> may
  fail and leave the file as it was; \<open>pickle.dump\<close> may fail after \<open>open\<close> has
  truncated the file.
\<close>

datatype dump_outcome = DumpOk | OpenFailed | DumpFailed

record env =
  py_repr :: "pyval \<Rightarrow> string"
  md5_hexdigest :: "string \<Rightarrow> string"
  get_embedding :: "event list \<Rightarrow> string \<Rightarrow> exn + vector"
  uuid4 :: "event list \<Rightarrow> string"
  index_upsert :: "event list \<Rightarrow> vec list \<Rightarrow> exn option"
  index_query :: "event list \<Rightarrow> vector \<Rightarrow> int \<Rightarrow> pyval dict option \<Rightarrow> exn + match list"
  index_delete :: "event list \<Rightarrow> string list \<Rightarrow> exn option"
  dump_snapshot :: "event list \<Rightarrow> cache \<Rightarrow> dump_outcome"
  makedirs :: "exn option"
  embedding_cache_init :: "exn option"
  pinecone_init :: "exn option"

text \<open>
  The engine's field \<open>retrieval_cache\<close>, together with the part of the world its methods
  touch: the caller's metadata dictionaries (objects on the heap, passed by reference),
  the snapshot file, and the trace.
\<close>

type_synonym addr = nat

record state =
  retrieval_cache :: cache
  heap :: "addr \<Rightarrow> pyval dict"
  disk :: snapshot
  trace :: "event list"

definition log :: "event \<Rightarrow> state \<Rightarrow> state" where
  "log ev s = s\<lparr>trace := trace s @ [ev]\<rparr>"

subsection \<open>The fingerprint: \<open>_generate_retrieval_key\<close>\<close>

text \<open>\<open>str(n)\<close> for an \<open>int\<close>.\<close>

definition digit_char :: "nat \<Rightarrow> char" where
  "digit_char d = ''0123456789'' ! d"

fun str_nat :: "nat \<Rightarrow> string" where
  "str_nat n = (if n < 10 then [digit_char n] else str_nat (n div 10) @ [digit_char (n mod 10)])"

declare str_nat.simps [simp del]

definition str_int :: "int \<Rightarrow> string" where
  "str_int i = (if i < 0 then CHR ''-'' # str_nat (nat (- i)) else str_nat (nat i))"

text \<open>
  \<open>sorted(d.items())\<close>. Python compares the pairs as tuples: the first components
  decide unless they are equal, and the keys of a dictionary never are; the sort is
  stable.
\<close>

definition sorted_items :: "pyval dict \<Rightarrow> (string \<times> pyval) list" where
  "sorted_items d = sort_key fst d"

fun join :: "string \<Rightarrow> string list \<Rightarrow> string" where
  "join sep [] = []"
| "join sep [x] = x"
| "join sep (x # y # ys) = x @ sep @ join sep (y # ys)"

text \<open>\<open>str\<close> of a list of pairs: \<open>[(k1, v1), (k2, v2)]\<close> with \<open>repr\<close> of the parts.\<close>

definition repr_item :: "env \<Rightarrow> string \<times> pyval \<Rightarrow> string" where
  "repr_item env kv =
     ''('' @ py_repr env (PyStr (fst kv)) @ '', '' @ py_repr env (snd kv) @ '')''"

definition str_items :: "env \<Rightarrow> (string \<times> pyval) list \<Rightarrow> string" where
  "str_items env xs = ''['' @ join '', '' (map (repr_item env) xs) @ '']''"

text \<open>Truthiness of the optional filter: \<open>None\<close> and the empty dictionary are false.\<close>

definition truthy :: "pyval dict option \<Rightarrow> bool" where
  "truthy f = (case f of None \<Rightarrow> False | Some d \<Rightarrow> d \<noteq> [])"

text \<open>
  The key. \<open>md5_hexdigest\<close> stands for \<open>hashlib.md5(key_str.encode('utf-8')).hexdigest()\<close>,
  the encoding included.
\<close>

definition generate_retrieval_key :: "env \<Rightarrow> string \<Rightarrow> int \<Rightarrow> pyval dict option \<Rightarrow> string" where
  "generate_retrieval_key env query top_k filter_criteria =
     (let filter_str =
            (if truthy filter_criteria
             then str_items env (sorted_items (the filter_criteria))
             else ''None'');
          key_str = query @ ''|'' @ str_int top_k @ ''|'' @ filter_str
      in md5_hexdigest env key_str)"

subsection \<open>Loading and saving the snapshot\<close>

text \<open>
  \<open>_load_retrieval_cache\<close>: a missing file gives the empty dictionary; any exception
  while opening or unpickling is caught and gives the empty dictionary as well.
\<close>

definition load_retrieval_cache :: "snapshot \<Rightarrow> cache" where
  "load_retrieval_cache d = (case d of NoFile \<Rightarrow> [] | Unreadable \<Rightarrow> [] | Stored c \<Rightarrow> c)"

text \<open>
  \<open>_save_retrieval_cache\<close>: the whole body is inside \<open>try ... except Exception\<close>, so the
  outcome of the write decides only what is on disk afterwards.
\<close>

definition save_retrieval_cache :: "env \<Rightarrow> state \<Rightarrow> state" where
  "save_retrieval_cache env s =
     (let c = retrieval_cache s;
          d = (case dump_snapshot env (trace s) c of
                 DumpOk \<Rightarrow> Stored c
               | OpenFailed \<Rightarrow> disk s
               | DumpFailed \<Rightarrow> Unreadable)
      in s\<lparr>disk := d, trace := trace s @ [EvDump c]\<rparr>)"

subsection \<open>Construction\<close>

text \<open>
  \<open>__init__\<close>: \<open>os.makedirs\<close>, the embedding cache and the index client are set up
  first, and an exception of any of them leaves the constructor; the retrieval cache is
  loaded last.
\<close>

definition init_engine :: "env \<Rightarrow> (addr \<Rightarrow> pyval dict) \<Rightarrow> snapshot \<Rightarrow> exn + state" where
  "init_engine env h d =
     (case makedirs env of
        Some e \<Rightarrow> Inl e
      | None \<Rightarrow>
          (case embedding_cache_init env of
             Some e \<Rightarrow> Inl e
           | None \<Rightarrow>
               (case pinecone_init env of
                  Some e \<Rightarrow> Inl e
                | None \<Rightarrow>
                    Inr \<lparr>retrieval_cache = load_retrieval_cache d, heap = h, disk = d,
                         trace = []\<rparr>)))"

subsection \<open>\<open>add_item\<close>\<close>

text \<open>The two assignments \<open>metadata["content"] = content\<close> and
  \<open>metadata["item_type"] = item_type\<close>.\<close>

definition merge_metadata :: "pyval dict \<Rightarrow> string \<Rightarrow> string \<Rightarrow> pyval dict" where
  "merge_metadata md content item_type =
     setitem (setitem md ''content'' (PyStr content)) ''item_type'' (PyStr item_type)"

text \<open>
  Every method returns its result, or the exception that leaves it, together with the
  state reached: what was done before an exception stays done.
\<close>

definition add_item :: "env \<Rightarrow> state \<Rightarrow> string \<Rightarrow> addr \<Rightarrow> string \<Rightarrow> (exn + string) \<times> state" where
  "add_item env s content metadata item_type =
     (let s1 = s\<lparr>heap := (heap s)(metadata := merge_metadata (heap s metadata) content item_type)\<rparr>
      in case get_embedding env (trace s1) content of
           Inl e \<Rightarrow> (Inl e, log (EvGetEmbedding content) s1)
         | Inr embedding \<Rightarrow>
             (let s2 = log (EvGetEmbedding content) s1;
                  item_id = uuid4 env (trace s2);
                  s3 = log EvUuid4 s2;
                  vectors = [\<lparr>vec_id = item_id, vec_values = embedding,
                              vec_metadata = heap s3 metadata\<rparr>]
              in case index_upsert env (trace s3) vectors of
                   Some e \<Rightarrow> (Inl e, log (EvUpsert vectors) s3)
                 | None \<Rightarrow>
                     (Inr item_id,
                      save_retrieval_cache env
                        ((log (EvUpsert vectors) s3)\<lparr>retrieval_cache := []\<rparr>))))"

subsection \<open>\<open>bulk_add_items\<close>\<close>

text \<open>The first loop: one embedding per content, in order; the first exception ends it.\<close>

fun embed_all :: "env \<Rightarrow> state \<Rightarrow> string list \<Rightarrow> (exn + vector list) \<times> state" where
  "embed_all env s [] = (Inr [], s)"
| "embed_all env s (content # rest) =
     (case get_embedding env (trace s) content of
        Inl e \<Rightarrow> (Inl e, log (EvGetEmbedding content) s)
      | Inr embedding \<Rightarrow>
          (case embed_all env (log (EvGetEmbedding content) s) rest of
             (Inl e, s') \<Rightarrow> (Inl e, s')
           | (Inr embeddings, s') \<Rightarrow> (Inr (embedding # embeddings), s')))"

text \<open>\<open>xs[i]\<close> for a non-negative index.\<close>

definition subscript :: "'a list \<Rightarrow> nat \<Rightarrow> exn + 'a" where
  "subscript xs i = (if i < length xs then Inr (xs ! i) else Inl IndexError)"

text \<open>
  The second loop, over \<open>enumerate(zip(contents, metadatas, embeddings))\<close>. Each vector
  keeps a reference to its metadata dictionary, not a copy: the entry built here holds
  the address. The id is \<open>f"item_{i}"\<close>.
\<close>

fun build_vectors ::
  "nat \<Rightarrow> (string \<times> addr \<times> vector) list \<Rightarrow> string list \<Rightarrow> (addr \<Rightarrow> pyval dict)
     \<Rightarrow> (exn + (string \<times> vector \<times> addr) list) \<times> (addr \<Rightarrow> pyval dict)" where
  "build_vectors i [] item_types h = (Inr [], h)"
| "build_vectors i ((content, metadata, embedding) # rest) item_types h =
     (let h1 = h(metadata := setitem (h metadata) ''content'' (PyStr content))
      in case subscript item_types i of
           Inl e \<Rightarrow> (Inl e, h1)
         | Inr item_type \<Rightarrow>
             (let h2 = h1(metadata := setitem (h1 metadata) ''item_type'' (PyStr item_type))
              in case build_vectors (Suc i) rest item_types h2 of
                   (Inl e, h') \<Rightarrow> (Inl e, h')
                 | (Inr vs, h') \<Rightarrow>
                     (Inr ((''item_'' @ str_nat i, embedding, metadata) # vs), h')))"

text \<open>What the index receives: the referenced dictionaries as they are at the call.\<close>

definition resolve :: "(addr \<Rightarrow> pyval dict) \<Rightarrow> string \<times> vector \<times> addr \<Rightarrow> vec" where
  "resolve h r =
     (case r of (i, embedding, metadata) \<Rightarrow>
        \<lparr>vec_id = i, vec_values = embedding, vec_metadata = h metadata\<rparr>)"

definition bulk_add_items ::
  "env \<Rightarrow> state \<Rightarrow> string list \<Rightarrow> addr list \<Rightarrow> string list \<Rightarrow> (exn + string list) \<times> state" where
  "bulk_add_items env s contents metadatas item_types =
     (if \<not> (length contents = length metadatas \<and> length metadatas = length item_types)
      then (Inl (ValueError ''Contents, metadatas, and item_types must have the same length''), s)
      else
        (case embed_all env s contents of
           (Inl e, s1) \<Rightarrow> (Inl e, s1)
         | (Inr embeddings, s1) \<Rightarrow>
             (case build_vectors 0 (zip contents (zip metadatas embeddings)) item_types (heap s1) of
                (Inl e, h) \<Rightarrow> (Inl e, s1\<lparr>heap := h\<rparr>)
              | (Inr refs, h) \<Rightarrow>
                  (let s2 = s1\<lparr>heap := h\<rparr>;
                       vectors = map (resolve h) refs
                   in case index_upsert env (trace s2) vectors of
                        Some e \<Rightarrow> (Inl e, log (EvUpsert vectors) s2)
                      | None \<Rightarrow>
                          (Inr (map vec_id vectors),
                           save_retrieval_cache env
                             ((log (EvUpsert vectors) s2)\<lparr>retrieval_cache := []\<rparr>))))))"

subsection \<open>\<open>get_retrivals\<close>\<close>

definition format_match :: "match \<Rightarrow> recommendation" where
  "format_match m =
     \<lparr>rec_id = match_id m, rec_score = match_score m, rec_metadata = match_metadata m\<rparr>"

definition get_retrivals ::
  "env \<Rightarrow> state \<Rightarrow> string \<Rightarrow> int \<Rightarrow> pyval dict option \<Rightarrow> (exn + recommendation list) \<times> state" where
  "get_retrivals env s query top_k filter_criteria =
     (let cache_key = generate_retrieval_key env query top_k filter_criteria
      in case getitem (retrieval_cache s) cache_key of
           Some cached \<Rightarrow> (Inr cached, s)
         | None \<Rightarrow>
             (case get_embedding env (trace s) query of
                Inl e \<Rightarrow> (Inl e, log (EvGetEmbedding query) s)
              | Inr query_embedding \<Rightarrow>
                  (let s1 = log (EvGetEmbedding query) s
                   in case index_query env (trace s1) query_embedding top_k filter_criteria of
                        Inl e \<Rightarrow> (Inl e, log (EvQuery query_embedding top_k filter_criteria) s1)
                      | Inr matches \<Rightarrow>
                          (let s2 = log (EvQuery query_embedding top_k filter_criteria) s1;
                               recommendations = map format_match matches;
                               s3 = s2\<lparr>retrieval_cache :=
                                         setitem (retrieval_cache s2) cache_key recommendations\<rparr>
                           in (Inr recommendations, save_retrieval_cache env s3)))))"

subsection \<open>\<open>delete_item\<close> and \<open>clear_retrieval_cache\<close>\<close>

definition delete_item :: "env \<Rightarrow> state \<Rightarrow> string \<Rightarrow> (exn + unit) \<times> state" where
  "delete_item env s item_id =
     (case index_delete env (trace s) [item_id] of
        Some e \<Rightarrow> (Inl e, log (EvDelete [item_id]) s)
      | None \<Rightarrow>
          (Inr (),
           save_retrieval_cache env ((log (EvDelete [item_id]) s)\<lparr>retrieval_cache := []\<rparr>)))"

definition clear_retrieval_cache :: "env \<Rightarrow> state \<Rightarrow> (exn + unit) \<times> state" where
  "clear_retrieval_cache env s =
     (Inr (), save_retrieval_cache env (s\<lparr>retrieval_cache := []\<rparr>))"

subsection \<open>The public operations as one step function\<close>

datatype operation =
    AddItem string addr string
  | BulkAddItems "string list" "addr list" "string list"
  | GetRetrivals string int "pyval dict option"
  | DeleteItem string
  | ClearRetrievalCache

datatype result = ItemId string | ItemIds "string list" | Retrievals "recommendation list" | Done

fun exec_op :: "env \<Rightarrow> state \<Rightarrow> operation \<Rightarrow> (exn + result) \<times> state" where
  "exec_op env s (AddItem content metadata item_type) =
     (case add_item env s content metadata item_type of
        (r, s') \<Rightarrow> (map_sum (\<lambda>e. e) ItemId r, s'))"
| "exec_op env s (BulkAddItems contents metadatas item_types) =
     (case bulk_add_items env s contents metadatas item_types of
        (r, s') \<Rightarrow> (map_sum (\<lambda>e. e) ItemIds r, s'))"
| "exec_op env s (GetRetrivals query top_k filter_criteria) =
     (case get_retrivals env s query top_k filter_criteria of
        (r, s') \<Rightarrow> (map_sum (\<lambda>e. e) Retrievals r, s'))"
| "exec_op env s (DeleteItem item_id) =
     (case delete_item env s item_id of
        (r, s') \<Rightarrow> (map_sum (\<lambda>e. e) (\<lambda>_. Done) r, s'))"
| "exec_op env s ClearRetrievalCache =
     (case clear_retrieval_cache env s of
        (r, s') \<Rightarrow> (map_sum (\<lambda>e. e) (\<lambda>_. Done) r, s'))"

text \<open>A caller that goes on after an exception: the state after a run of operations.\<close>

fun run_ops :: "env \<Rightarrow> state \<Rightarrow> operation list \<Rightarrow> state" where
  "run_ops env s [] = s"
| "run_ops env s (op # ops) = run_ops env (snd (exec_op env s op)) ops"

fun is_mutation :: "operation \<Rightarrow> bool" where
  "is_mutation (AddItem _ _ _) = True"
| "is_mutation (BulkAddItems _ _ _) = True"
| "is_mutation (DeleteItem _) = True"
| "is_mutation _ = False"

subsection \<open>States that differ in the snapshot file only\<close>

definition same_memory :: "state \<Rightarrow> state \<Rightarrow> bool" where
  "same_memory s t =
     (retrieval_cache s = retrieval_cache t \<and> heap s = heap t \<and> trace s = trace t)"

subsection \<open>A small world for running the engine\<close>

text \<open>
  Stand-ins for the collaborators, used to run the definitions on concrete inputs:
  \<open>repr\<close> as it prints plain ASCII strings without quotes or escapes, integers and
  \<open>None\<close>; a digest that returns its input; an embedding of one number; an index that
  accepts every call and answers each query with one match; a file system that stores
  every snapshot.
\<close>

fun stub_repr :: "pyval \<Rightarrow> string" where
  "stub_repr (PyStr s) = [CHR 39] @ s @ [CHR 39]"
| "stub_repr (PyInt i) = str_int i"
| "stub_repr (PyBool b) = (if b then ''True'' else ''False'')"
| "stub_repr _ = ''None''"

definition stub_match :: match where
  "stub_match = \<lparr>match_id = ''m1'', match_score = 7, match_metadata = [(''content'', PyStr ''x'')],
                  match_values = [1, 2]\<rparr>"

definition stub_env :: env where
  "stub_env =
     \<lparr>py_repr = stub_repr,
      md5_hexdigest = (\<lambda>s. s),
      get_embedding = (\<lambda>tr content. Inr [of_nat (length content)]),
      uuid4 = (\<lambda>tr. ''uuid-'' @ str_nat (length tr)),
      index_upsert = (\<lambda>tr vs. None),
      index_query = (\<lambda>tr v k f. Inr [stub_match]),
      index_delete = (\<lambda>tr ids. None),
      dump_snapshot = (\<lambda>tr c. DumpOk),
      makedirs = None,
      embedding_cache_init = None,
      pinecone_init = None\<rparr>"

text \<open>An engine with an empty cache, no snapshot, and empty dictionaries on the heap.\<close>

definition stub_state :: state where
  "stub_state = \<lparr>retrieval_cache = [], heap = (\<lambda>a. []), disk = NoFile, trace = []\<rparr>"

subsection \<open>Python's \<open>repr\<close> on a concrete world\<close>

text \<open>
  \<open>repr\<close> as Python prints \<open>None\<close>, booleans, integers, strings, lists and
  dictionaries. A string is quoted with single quotes, or with double quotes when it
  contains a single quote and no double quote; the quote character and the backslash are
  escaped, tab, newline and carriage return are written with their letters, and the other
  non-printable code points below 256 as a backslash, \<open>x\<close> and two hexadecimal digits.
  The text of a float is a parameter.
\<close>

definition hex_digit :: "nat \<Rightarrow> char" where
  "hex_digit d = ''0123456789abcdef'' ! d"

definition repr_char :: "char \<Rightarrow> char \<Rightarrow> string" where
  "repr_char quote c =
     (let n = (of_char c :: nat) in
      if c = quote \<or> c = CHR 0x5C then [CHR 0x5C, c]
      else if n = 9 then [CHR 0x5C, CHR ''t'']
      else if n = 10 then [CHR 0x5C, CHR ''n'']
      else if n = 13 then [CHR 0x5C, CHR ''r'']
      else if n < 32 \<or> n = 127 \<or> (128 \<le> n \<and> n \<le> 160) \<or> n = 173
        then [CHR 0x5C, CHR ''x'', hex_digit (n div 16), hex_digit (n mod 16)]
      else [c])"

definition repr_str :: "string \<Rightarrow> string" where
  "repr_str s =
     (let quote = (if CHR 0x27 \<in> set s \<and> CHR 0x22 \<notin> set s then CHR 0x22 else CHR 0x27)
      in [quote] @ concat (map (repr_char quote) s) @ [quote])"

fun python_repr :: "(pyfloat \<Rightarrow> string) \<Rightarrow> pyval \<Rightarrow> string" where
  "python_repr fr PyNone = ''None''"
| "python_repr fr (PyBool b) = (if b then ''True'' else ''False'')"
| "python_repr fr (PyInt i) = str_int i"
| "python_repr fr (PyFloat x) = fr x"
| "python_repr fr (PyStr s) = repr_str s"
| "python_repr fr (PyList xs) = ''['' @ join '', '' (map (python_repr fr) xs) @ '']''"
| "python_repr fr (PyDict d) =
     ''{'' @ join '', '' (map (\<lambda>kv. repr_str (fst kv) @ '': '' @ python_repr fr (snd kv)) d) @ ''}''"

text \<open>
  The hexadecimal MD5 digests, as \<open>hashlib\<close> computes them, of the two key strings of
  the example on nested filters; other strings are returned as they are.
\<close>

definition md5_sample :: "string \<Rightarrow> string" where
  "md5_sample s =
     (if s = ''q|5|[('year', {'$gte': 2000, '$lte': 2010})]''
        then ''0332522bb899ecc7d28f6c199f6589d5''
      else if s = ''q|5|[('year', {'$lte': 2010, '$gte': 2000})]''
        then ''eb37110df0503f2d36227dded4bc38f3''
      else s)"

text \<open>The small world with Python's \<open>repr\<close> and these digests; no example holds a float.\<close>

definition python_env :: env where
  "python_env = stub_env\<lparr>py_repr := python_repr (\<lambda>x. ''0.0''), md5_hexdigest := md5_sample\<rparr>"

text \<open>The equations that run the engine on a concrete input.\<close>

lemmas stub_defs = stub_env_def stub_state_def stub_match_def
lemmas engine_defs = add_item_def bulk_add_items_def get_retrivals_def delete_item_def
  clear_retrieval_cache_def save_retrieval_cache_def log_def merge_metadata_def setitem_def
  getitem_def generate_retrieval_key_def truthy_def str_items_def repr_item_def sorted_items_def
  format_match_def str_int_def str_nat.simps digit_char_def resolve_def subscript_def Let_def

lemmas python_defs = python_env_def md5_sample_def repr_str_def repr_char_def hex_digit_def

section \<open>Properties\<close>

subsection \<open>What the helpers leave alone\<close>


lemma save_retrieval_cache_fields:
  "retrieval_cache (save_retrieval_cache env s) = retrieval_cache s"
  "heap (save_retrieval_cache env s) = heap s"
  "trace (save_retrieval_cache env s) = trace s @ [EvDump (retrieval_cache s)]"
  by (simp_all add: save_retrieval_cache_def Let_def)

lemma log_fields:
  "retrieval_cache (log ev s) = retrieval_cache s"
  "heap (log ev s) = heap s"
  "disk (log ev s) = disk s"
  "trace (log ev s) = trace s @ [ev]"
  by (simp_all add: log_def)

lemma embed_all_fields:
  "embed_all env s cs = (r, s') \<Longrightarrow>
     retrieval_cache s' = retrieval_cache s \<and> heap s' = heap s \<and> disk s' = disk s"
proof (induction cs arbitrary: s r s')
  case Nil
  then show ?case by simp
next
  case (Cons c cs)
  show ?case
  proof (cases "get_embedding env (trace s) c")
    case (Inl e)
    with Cons.prems show ?thesis by (auto simp: log_fields)
  next
    case (Inr v)
    obtain r1 s1 where rec: "embed_all env (log (EvGetEmbedding c) s) cs = (r1, s1)"
      by (cases "embed_all env (log (EvGetEmbedding c) s) cs")
    from Cons.IH [OF rec] have "retrieval_cache s1 = retrieval_cache s \<and> heap s1 = heap s \<and> disk s1 = disk s"
      by (simp add: log_fields)
    moreover from Cons.prems Inr rec have "s' = s1"
      by (auto split: sum.splits)
    ultimately show ?thesis by simp
  qed
qed

lemma embed_all_success:
  "embed_all env s cs = (Inr vs, s') \<Longrightarrow>
     length vs = length cs \<and> trace s' = trace s @ map EvGetEmbedding cs"
proof (induction cs arbitrary: s vs s')
  case Nil
  then show ?case by simp
next
  case (Cons c cs)
  from Cons.prems obtain v where v: "get_embedding env (trace s) c = Inr v"
    by (cases "get_embedding env (trace s) c") auto
  obtain r1 s1 where rec: "embed_all env (log (EvGetEmbedding c) s) cs = (r1, s1)"
    by (cases "embed_all env (log (EvGetEmbedding c) s) cs")
  from Cons.prems v rec obtain vs1 where r1: "r1 = Inr vs1" and vs: "vs = v # vs1" and s': "s' = s1"
    by (cases r1) auto
  from Cons.IH [OF rec [unfolded r1]] show ?case
    by (simp add: vs s' log_fields)
qed

lemma add_item_success_cache:
  "add_item env s c m t = (Inr i, s') \<Longrightarrow> retrieval_cache s' = []"
  by (auto simp: add_item_def Let_def save_retrieval_cache_fields split: sum.splits option.splits)

lemma bulk_add_items_success_cache:
  "bulk_add_items env s cs ms ts = (Inr ids, s') \<Longrightarrow> retrieval_cache s' = []"
  by (auto simp: bulk_add_items_def Let_def save_retrieval_cache_fields
           split: if_splits sum.splits option.splits prod.splits)

lemma delete_item_success_cache:
  "delete_item env s i = (Inr u, s') \<Longrightarrow> retrieval_cache s' = []"
  by (auto simp: delete_item_def save_retrieval_cache_fields split: option.splits)

lemma mutation_success_cache:
  assumes "is_mutation op" and "exec_op env s op = (Inr r, s')"
  shows "retrieval_cache s' = []"
proof (cases op)
  case (AddItem c m t)
  with assms(2) show ?thesis
    by (cases "add_item env s c m t"; cases "fst (add_item env s c m t)")
       (auto dest: add_item_success_cache)
next
  case (BulkAddItems cs ms ts)
  with assms(2) show ?thesis
    by (cases "bulk_add_items env s cs ms ts"; cases "fst (bulk_add_items env s cs ms ts)")
       (auto dest: bulk_add_items_success_cache)
next
  case (DeleteItem i)
  with assms(2) show ?thesis
    by (cases "delete_item env s i"; cases "fst (delete_item env s i)")
       (auto dest: delete_item_success_cache)
next
  case (GetRetrivals q k f)
  with assms(1) show ?thesis by simp
next
  case ClearRetrievalCache
  with assms(1) show ?thesis by simp
qed

lemma get_retrivals_miss_trace:
  assumes "getitem (retrieval_cache s) (generate_retrieval_key env q k f) = None"
  shows "\<exists>evs. trace (snd (get_retrivals env s q k f)) = trace s @ EvGetEmbedding q # evs"
  using assms
  by (auto simp: get_retrivals_def Let_def log_fields save_retrieval_cache_fields split: sum.splits)

lemma get_retrivals_miss_result:
  assumes "getitem (retrieval_cache s) (generate_retrieval_key env q k f) = None"
      and "get_retrivals env s q k f = (Inr recs, s'')"
  shows "\<exists>v ms. get_embedding env (trace s) q = Inr v \<and>
           index_query env (trace s @ [EvGetEmbedding q]) v k f = Inr ms \<and>
           recs = map format_match ms"
  using assms
  by (auto simp: get_retrivals_def Let_def log_fields save_retrieval_cache_fields split: sum.splits)

subsection \<open>Results cached after a state with an empty cache\<close>

lemma set_setitem:
  "set (setitem d k v) \<subseteq> insert (k, v) (set d)"
  unfolding setitem_def by (induction d) auto

lemma embed_all_trace:
  "embed_all env s cs = (r, s') \<Longrightarrow> \<exists>tr. trace s' = trace s @ tr"
proof (induction cs arbitrary: s r s')
  case Nil
  then show ?case by simp
next
  case (Cons c cs)
  show ?case
  proof (cases "get_embedding env (trace s) c")
    case (Inl e)
    with Cons.prems show ?thesis by (auto simp: log_fields)
  next
    case (Inr v)
    obtain r1 s1 where rec: "embed_all env (log (EvGetEmbedding c) s) cs = (r1, s1)"
      by (cases "embed_all env (log (EvGetEmbedding c) s) cs")
    from Cons.IH [OF rec] obtain tr where "trace s1 = trace s @ EvGetEmbedding c # tr"
      by (auto simp: log_fields)
    moreover from Cons.prems Inr rec have "s' = s1"
      by (auto split: sum.splits)
    ultimately show ?thesis by simp
  qed
qed

text \<open>Every operation only adds to the trace, and what it leaves in the cache was either
  there before or is the index's answer to a query asked during the operation.\<close>

lemma exec_op_trace:
  "\<exists>tr. trace (snd (exec_op env s op)) = trace s @ tr"
proof (cases op)
  case (AddItem c m t)
  then show ?thesis
    by (auto simp: add_item_def Let_def log_fields save_retrieval_cache_fields
             split: sum.splits option.splits)
next
  case (BulkAddItems cs ms ts)
  obtain r1 s1 where e: "embed_all env s cs = (r1, s1)"
    by (cases "embed_all env s cs")
  from embed_all_trace [OF e] obtain tr where "trace s1 = trace s @ tr" ..
  with BulkAddItems e show ?thesis
    by (auto simp: bulk_add_items_def Let_def log_fields save_retrieval_cache_fields
             split: sum.splits option.splits prod.splits)
next
  case (GetRetrivals q k f)
  then show ?thesis
    by (auto simp: get_retrivals_def Let_def log_fields save_retrieval_cache_fields
             split: sum.splits option.splits)
next
  case (DeleteItem i)
  then show ?thesis
    by (auto simp: delete_item_def log_fields save_retrieval_cache_fields split: option.splits)
next
  case ClearRetrievalCache
  then show ?thesis
    by (auto simp: clear_retrieval_cache_def save_retrieval_cache_fields)
qed

lemma exec_op_cache:
  assumes "(key, recs) \<in> set (retrieval_cache (snd (exec_op env s op)))"
  shows "(key, recs) \<in> set (retrieval_cache s) \<or>
         (\<exists>v k f ms tr. index_query env (trace s @ tr) v k f = Inr ms \<and> recs = map format_match ms)"
proof (cases op)
  case (AddItem c m t)
  with assms show ?thesis
    by (auto simp: add_item_def Let_def log_fields save_retrieval_cache_fields
             split: sum.splits option.splits)
next
  case (BulkAddItems cs ms ts)
  obtain r1 s1 where e: "embed_all env s cs = (r1, s1)"
    by (cases "embed_all env s cs")
  from embed_all_fields [OF e] have "retrieval_cache s1 = retrieval_cache s" by simp
  with BulkAddItems e assms show ?thesis
    by (auto simp: bulk_add_items_def Let_def log_fields save_retrieval_cache_fields
             split: if_splits sum.splits option.splits prod.splits)
next
  case (GetRetrivals q k f)
  show ?thesis
  proof (cases "getitem (retrieval_cache s) (generate_retrieval_key env q k f)")
    case (Some cached)
    with GetRetrivals assms show ?thesis
      by (simp add: get_retrivals_def Let_def)
  next
    case None
    show ?thesis
    proof (cases "get_embedding env (trace s) q")
      case (Inl e)
      with None GetRetrivals assms show ?thesis
        by (simp add: get_retrivals_def Let_def log_fields)
    next
      case (Inr v)
      show ?thesis
      proof (cases "index_query env (trace s @ [EvGetEmbedding q]) v k f")
        case (Inl e)
        with None Inr GetRetrivals assms show ?thesis
          by (simp add: get_retrivals_def Let_def log_fields)
      next
        case ms: (Inr ms)
        with None Inr GetRetrivals assms
        have "(key, recs) \<in> set (setitem (retrieval_cache s) (generate_retrieval_key env q k f)
                 (map format_match ms))"
          by (simp add: get_retrivals_def Let_def log_fields save_retrieval_cache_fields)
        then have "(key, recs) \<in> set (retrieval_cache s) \<or> recs = map format_match ms"
          using set_setitem [of "retrieval_cache s" "generate_retrieval_key env q k f" "map format_match ms"]
          by auto
        with ms show ?thesis by blast
      qed
    qed
  qed
next
  case (DeleteItem i)
  with assms show ?thesis
    by (auto simp: delete_item_def log_fields save_retrieval_cache_fields split: option.splits)
next
  case ClearRetrievalCache
  with assms show ?thesis
    by (auto simp: clear_retrieval_cache_def save_retrieval_cache_fields)
qed

lemma run_ops_fresh:
  assumes "retrieval_cache s = []"
  shows "(\<exists>tr. trace (run_ops env s ops) = trace s @ tr) \<and>
         (\<forall>key recs. (key, recs) \<in> set (retrieval_cache (run_ops env s ops)) \<longrightarrow>
            (\<exists>v k f ms tr. index_query env (trace s @ tr) v k f = Inr ms \<and> recs = map format_match ms))"
proof -
  have gen: "(\<exists>tr. trace (run_ops env t ops) = trace s @ tr) \<and>
         (\<forall>key recs. (key, recs) \<in> set (retrieval_cache (run_ops env t ops)) \<longrightarrow>
            (\<exists>v k f ms tr. index_query env (trace s @ tr) v k f = Inr ms \<and> recs = map format_match ms))"
    if "\<exists>tr. trace t = trace s @ tr"
      and "\<forall>key recs. (key, recs) \<in> set (retrieval_cache t) \<longrightarrow>
            (\<exists>v k f ms tr. index_query env (trace s @ tr) v k f = Inr ms \<and> recs = map format_match ms)"
    for t
    using that
  proof (induction ops arbitrary: t)
    case Nil
    then show ?case by simp
  next
    case (Cons op ops)
    let ?t' = "snd (exec_op env t op)"
    from Cons.prems(1) obtain tr0 where tr0: "trace t = trace s @ tr0" ..
    from exec_op_trace [of env t op] obtain tr1 where "trace ?t' = trace t @ tr1" ..
    with tr0 have 1: "\<exists>tr. trace ?t' = trace s @ tr" by simp
    have 2: "\<forall>key recs. (key, recs) \<in> set (retrieval_cache ?t') \<longrightarrow>
            (\<exists>v k f ms tr. index_query env (trace s @ tr) v k f = Inr ms \<and> recs = map format_match ms)"
    proof (intro allI impI)
      fix key recs assume "(key, recs) \<in> set (retrieval_cache ?t')"
      from exec_op_cache [OF this]
      show "\<exists>v k f ms tr. index_query env (trace s @ tr) v k f = Inr ms \<and> recs = map format_match ms"
      proof
        assume "(key, recs) \<in> set (retrieval_cache t)"
        with Cons.prems(2) show ?thesis by blast
      next
        assume "\<exists>v k f ms tr. index_query env (trace t @ tr) v k f = Inr ms \<and> recs = map format_match ms"
        then obtain v k f ms tr where "index_query env (trace s @ (tr0 @ tr)) v k f = Inr ms"
            "recs = map format_match ms"
          using tr0 by auto
        then show ?thesis by blast
      qed
    qed
    from Cons.IH [OF 1 2] show ?case by simp
  qed
  show ?thesis
    by (rule gen) (simp_all add: assms)
qed

lemma later_retrieval_fresh:
  assumes "retrieval_cache s = []"
      and "get_retrivals env (run_ops env s ops) q k f = (Inr recs, s'')"
  shows "\<exists>v k' f' ms tr. index_query env (trace s @ tr) v k' f' = Inr ms \<and> recs = map format_match ms"
proof (cases "getitem (retrieval_cache (run_ops env s ops)) (generate_retrieval_key env q k f)")
  case None
  from get_retrivals_miss_result [OF None assms(2)] run_ops_fresh [OF assms(1), of env ops]
  obtain v ms tr where "index_query env (trace s @ tr @ [EvGetEmbedding q]) v k f = Inr ms"
      "recs = map format_match ms"
    by auto
  then show ?thesis by blast
next
  case (Some cached)
  with assms(2) have "cached = recs"
    by (simp add: get_retrivals_def Let_def)
  with Some have "(generate_retrieval_key env q k f, recs) \<in> set (retrieval_cache (run_ops env s ops))"
    by (simp add: getitem_def map_of_SomeD)
  with run_ops_fresh [OF assms(1), of env ops] show ?thesis by blast
qed

subsection \<open>Invalidation\<close>

text \<open>
  C1. Whatever operations ran before, a successful \<open>add_item\<close>, \<open>bulk_add_items\<close> or
  \<open>delete_item\<close> leaves the retrieval cache empty: no fingerprint is present any more.
  The next \<open>get_retrivals\<close>, for any query, asks the embedding cache and the index and
  returns the index's fresh answer; and whatever operations follow, every list that a
  later \<open>get_retrivals\<close> returns is an answer the index gave after the mutation, never a
  list cached before it.
\<close>

theorem cache_empty_after_mutation:
  assumes "is_mutation op"
      and "exec_op env (run_ops env s0 ops) op = (Inr r, s')"
  shows "retrieval_cache s' = [] \<and>
         (\<forall>key. getitem (retrieval_cache s') key = None) \<and>
         (\<forall>q k f. \<exists>evs. trace (snd (get_retrivals env s' q k f)) = trace s' @ EvGetEmbedding q # evs) \<and>
         (\<forall>q k f recs s''. get_retrivals env s' q k f = (Inr recs, s'') \<longrightarrow>
            (\<exists>v ms. get_embedding env (trace s') q = Inr v \<and>
                index_query env (trace s' @ [EvGetEmbedding q]) v k f = Inr ms \<and>
                recs = map format_match ms)) \<and>
         (\<forall>later q k f recs s''.
            get_retrivals env (run_ops env s' later) q k f = (Inr recs, s'') \<longrightarrow>
            (\<exists>v k' f' ms tr. index_query env (trace s' @ tr) v k' f' = Inr ms \<and>
                recs = map format_match ms))"
proof -
  have empty: "retrieval_cache s' = []"
    using assms by (rule mutation_success_cache)
  then have absent: "\<And>key. getitem (retrieval_cache s') key = None"
    by (simp add: getitem_def)
  have later: "\<exists>v k' f' ms tr. index_query env (trace s' @ tr) v k' f' = Inr ms \<and>
                recs = map format_match ms"
    if "get_retrivals env (run_ops env s' later) q k f = (Inr recs, s'')"
    for later q k f recs s''
    using empty that by (rule later_retrieval_fresh)
  show ?thesis
    using empty absent get_retrivals_miss_trace [OF absent] get_retrivals_miss_result [OF absent]
      later
    by blast
qed

theorem cache_empty_after_mutation_witness:
  "is_mutation (DeleteItem ''m1'') \<and>
   getitem (retrieval_cache (run_ops stub_env stub_state [GetRetrivals ''q'' 5 None])) ''q|5|None'' \<noteq> None \<and>
   fst (exec_op stub_env (run_ops stub_env stub_state [GetRetrivals ''q'' 5 None]) (DeleteItem ''m1'')) = Inr Done \<and>
   retrieval_cache (snd (exec_op stub_env (run_ops stub_env stub_state [GetRetrivals ''q'' 5 None]) (DeleteItem ''m1''))) = []"
proof -
  let ?s = "run_ops stub_env stub_state [GetRetrivals ''q'' 5 None]"
  have m: "is_mutation (DeleteItem ''m1'')" by simp
  have present: "getitem (retrieval_cache ?s) ''q|5|None'' \<noteq> None"
    by (simp add: engine_defs stub_defs)
  have ok: "fst (exec_op stub_env ?s (DeleteItem ''m1'')) = Inr Done"
    by (simp add: engine_defs stub_defs)
  then have run: "exec_op stub_env ?s (DeleteItem ''m1'') = (Inr Done, snd (exec_op stub_env ?s (DeleteItem ''m1'')))"
    by (simp add: prod_eq_iff)
  from cache_empty_after_mutation [OF m run] m present ok show ?thesis
    by blast
qed

subsection \<open>Validation of a batch\<close>

text \<open>
  C3. When the three input lists of \<open>bulk_add_items\<close> do not all have the same length,
  the call raises \<open>ValueError\<close> and the state is the one it started from: nothing was
  added to the trace (no embedding lookup, no upsert, no write of the snapshot), and
  cache, heap and file are unchanged.
\<close>

theorem bulk_add_items_length_mismatch:
  assumes "\<not> (length contents = length metadatas \<and> length metadatas = length item_types)"
  shows "\<exists>msg. bulk_add_items env s contents metadatas item_types = (Inl (ValueError msg), s)"
  using assms by (simp add: bulk_add_items_def)

theorem bulk_add_items_length_mismatch_witness:
  "\<not> (length [''a'', ''b'', ''c''] = length [0, 1 :: nat] \<and> length [0, 1 :: nat] = length [''t'', ''t'', ''t'']) \<and>
   (\<exists>msg. bulk_add_items stub_env stub_state [''a'', ''b'', ''c''] [0, 1] [''t'', ''t'', ''t'']
      = (Inl (ValueError msg), stub_state))"
proof -
  have h: "\<not> (length [''a'', ''b'', ''c''] = length [0, 1 :: nat] \<and> length [0, 1 :: nat] = length [''t'', ''t'', ''t''])"
    by simp
  from bulk_add_items_length_mismatch [OF h] h show ?thesis
    by blast
qed

subsection \<open>The fingerprint\<close>

lemma sorted_items_unique:
  assumes "distinct (map fst f1)" "distinct (map fst f2)" "set f1 = set f2"
  shows "sorted_items f1 = sorted_items f2"
proof -
  have inj: "inj_on fst (set f1)"
    using assms(1) by (simp add: distinct_map)
  have d1: "distinct (map fst (sort_key fst f1))"
    using assms(1) by (metis distinct_map distinct_sort set_sort)
  have d2: "distinct (map fst (sort_key fst f2))"
    using assms(2) by (metis distinct_map distinct_sort set_sort)
  show ?thesis
    unfolding sorted_items_def
    by (rule map_sorted_distinct_set_unique [where f = fst])
       (use inj d1 d2 assms(3) in simp_all)
qed

text \<open>
  What the key does normalise: two filter dictionaries holding the same pairs, with
  identical values, entered in any order at the top level, get the same fingerprint, for
  every query, every \<open>top_k\<close> and whatever \<open>repr\<close> and the digest compute.
\<close>

lemma fingerprint_order_independent:
  assumes "distinct (map fst f1)" and "distinct (map fst f2)" and "set f1 = set f2"
  shows "generate_retrieval_key env q k (Some f1) = generate_retrieval_key env q k (Some f2)"
proof -
  have "sorted_items f1 = sorted_items f2"
    using assms by (rule sorted_items_unique)
  moreover have "(f1 = []) = (f2 = [])"
    using assms(3) by auto
  ultimately show ?thesis
    by (simp add: generate_retrieval_key_def truthy_def)
qed

lemma fingerprint_order_independent_example:
  "distinct (map fst [(''a'', PyInt 1), (''b'', PyInt 2)]) \<and>
   distinct (map fst [(''b'', PyInt 2), (''a'', PyInt 1)]) \<and>
   set [(''a'', PyInt 1), (''b'', PyInt 2)] = set [(''b'', PyInt 2), (''a'', PyInt 1)] \<and>
   [(''a'', PyInt 1), (''b'', PyInt 2)] \<noteq> [(''b'', PyInt 2), (''a'', PyInt 1)] \<and>
   generate_retrieval_key stub_env ''q'' 5 (Some [(''a'', PyInt 1), (''b'', PyInt 2)])
     = generate_retrieval_key stub_env ''q'' 5 (Some [(''b'', PyInt 2), (''a'', PyInt 1)])"
proof -
  have d1: "distinct (map fst [(''a'', PyInt 1), (''b'', PyInt 2)])" by simp
  have d2: "distinct (map fst [(''b'', PyInt 2), (''a'', PyInt 1)])" by simp
  have eq: "set [(''a'', PyInt 1), (''b'', PyInt 2)] = set [(''b'', PyInt 2), (''a'', PyInt 1)]"
    by auto
  have ne: "[(''a'', PyInt 1), (''b'', PyInt 2)] \<noteq> [(''b'', PyInt 2), (''a'', PyInt 1)]" by simp
  from fingerprint_order_independent [OF d1 d2 eq, of stub_env "''q''" 5] d1 d2 eq ne
  show ?thesis by blast
qed

text \<open>
  C2. The claim asks for the same fingerprint whenever two filters hold the same key-value
  pairs in a different field order. The key sorts the pairs of the filter itself and
  prints every value with \<open>repr\<close>, which keeps the insertion order of a dictionary
  nested inside a value. The filters \<open>{"year": {"$gte": 2000, "$lte": 2010}}\<close> and
  \<open>{"year": {"$lte": 2010, "$gte": 2000}}\<close> hold the same pair, the two inner
  dictionaries being the same mapping, and get different fingerprints.
\<close>

theorem fingerprint_nested_order_differs:
  "distinct (map fst [(''$gte'', PyInt 2000), (''$lte'', PyInt 2010)]) \<and>
   distinct (map fst [(''$lte'', PyInt 2010), (''$gte'', PyInt 2000)]) \<and>
   map_of [(''$gte'', PyInt 2000), (''$lte'', PyInt 2010)]
     = map_of [(''$lte'', PyInt 2010), (''$gte'', PyInt 2000)] \<and>
   str_items python_env
       (sorted_items [(''year'', PyDict [(''$gte'', PyInt 2000), (''$lte'', PyInt 2010)])])
     = ''[('year', {'$gte': 2000, '$lte': 2010})]'' \<and>
   str_items python_env
       (sorted_items [(''year'', PyDict [(''$lte'', PyInt 2010), (''$gte'', PyInt 2000)])])
     = ''[('year', {'$lte': 2010, '$gte': 2000})]'' \<and>
   generate_retrieval_key python_env ''q'' 5
       (Some [(''year'', PyDict [(''$gte'', PyInt 2000), (''$lte'', PyInt 2010)])])
     = ''0332522bb899ecc7d28f6c199f6589d5'' \<and>
   generate_retrieval_key python_env ''q'' 5
       (Some [(''year'', PyDict [(''$lte'', PyInt 2010), (''$gte'', PyInt 2000)])])
     = ''eb37110df0503f2d36227dded4bc38f3'' \<and>
   generate_retrieval_key python_env ''q'' 5
       (Some [(''year'', PyDict [(''$gte'', PyInt 2000), (''$lte'', PyInt 2010)])])
     \<noteq> generate_retrieval_key python_env ''q'' 5
       (Some [(''year'', PyDict [(''$lte'', PyInt 2010), (''$gte'', PyInt 2000)])])"
proof -
  have same: "map_of [(''$gte'', PyInt 2000), (''$lte'', PyInt 2010)]
     = map_of [(''$lte'', PyInt 2010), (''$gte'', PyInt 2000)]"
    by (rule ext) simp
  have s1: "str_items python_env
       (sorted_items [(''year'', PyDict [(''$gte'', PyInt 2000), (''$lte'', PyInt 2010)])])
     = ''[('year', {'$gte': 2000, '$lte': 2010})]''"
    by (simp add: engine_defs stub_defs python_defs)
  have s2: "str_items python_env
       (sorted_items [(''year'', PyDict [(''$lte'', PyInt 2010), (''$gte'', PyInt 2000)])])
     = ''[('year', {'$lte': 2010, '$gte': 2000})]''"
    by (simp add: engine_defs stub_defs python_defs)
  have k1: "generate_retrieval_key python_env ''q'' 5
       (Some [(''year'', PyDict [(''$gte'', PyInt 2000), (''$lte'', PyInt 2010)])])
     = ''0332522bb899ecc7d28f6c199f6589d5''"
    by (simp add: engine_defs stub_defs python_defs)
  have k2: "generate_retrieval_key python_env ''q'' 5
       (Some [(''year'', PyDict [(''$lte'', PyInt 2010), (''$gte'', PyInt 2000)])])
     = ''eb37110df0503f2d36227dded4bc38f3''"
    by (simp add: engine_defs stub_defs python_defs)
  from same s1 s2 k1 k2 show ?thesis by simp
qed

lemma get_retrivals_success_cached:
  assumes "get_retrivals env s q k f = (Inr recs, s')"
  shows "getitem (retrieval_cache s') (generate_retrieval_key env q k f) = Some recs"
proof (cases "getitem (retrieval_cache s) (generate_retrieval_key env q k f)")
  case (Some cached)
  with assms show ?thesis
    by (simp add: get_retrivals_def Let_def)
next
  case None
  with assms show ?thesis
    by (auto simp: get_retrivals_def Let_def log_fields save_retrieval_cache_fields
                   getitem_def setitem_def update_conv'
             split: sum.splits)
qed

lemma get_retrivals_hit:
  assumes "getitem (retrieval_cache s) (generate_retrieval_key env q k f) = Some cached"
  shows "get_retrivals env s q k f = (Inr cached, s)"
  using assms by (simp add: get_retrivals_def Let_def)

text \<open>
  C9. The empty filter dictionary and the absent filter have the same fingerprint, so the
  two spellings share one cache entry: a result obtained with one of them is a cache hit
  for the other, returned without touching the state.
\<close>

theorem empty_filter_shares_entry:
  "generate_retrieval_key env q k (Some []) = generate_retrieval_key env q k None \<and>
   (get_retrivals env s q k None = (Inr recs, s') \<longrightarrow>
      get_retrivals env s' q k (Some []) = (Inr recs, s')) \<and>
   (get_retrivals env s q k (Some []) = (Inr recs, s') \<longrightarrow>
      get_retrivals env s' q k None = (Inr recs, s'))"
proof -
  have key: "generate_retrieval_key env q k (Some []) = generate_retrieval_key env q k None"
    by (simp add: generate_retrieval_key_def truthy_def)
  have "get_retrivals env s' q k (Some []) = (Inr recs, s')"
    if "get_retrivals env s q k None = (Inr recs, s')"
    using get_retrivals_success_cached [OF that] key by (simp add: get_retrivals_hit)
  moreover have "get_retrivals env s' q k None = (Inr recs, s')"
    if "get_retrivals env s q k (Some []) = (Inr recs, s')"
    using get_retrivals_success_cached [OF that] key by (simp add: get_retrivals_hit)
  ultimately show ?thesis
    using key by blast
qed

theorem empty_filter_shares_entry_witness:
  "fst (get_retrivals stub_env stub_state ''q'' 5 None) = Inr [format_match stub_match] \<and>
   get_retrivals stub_env (snd (get_retrivals stub_env stub_state ''q'' 5 None)) ''q'' 5 (Some [])
     = (Inr [format_match stub_match], snd (get_retrivals stub_env stub_state ''q'' 5 None)) \<and>
   fst (get_retrivals stub_env stub_state ''q'' 5 (Some [])) = Inr [format_match stub_match] \<and>
   get_retrivals stub_env (snd (get_retrivals stub_env stub_state ''q'' 5 (Some []))) ''q'' 5 None
     = (Inr [format_match stub_match], snd (get_retrivals stub_env stub_state ''q'' 5 (Some [])))"
proof -
  have a: "fst (get_retrivals stub_env stub_state ''q'' 5 None) = Inr [format_match stub_match]"
    by (simp add: engine_defs stub_defs)
  then have a': "get_retrivals stub_env stub_state ''q'' 5 None
      = (Inr [format_match stub_match], snd (get_retrivals stub_env stub_state ''q'' 5 None))"
    by (simp add: prod_eq_iff)
  have b: "fst (get_retrivals stub_env stub_state ''q'' 5 (Some [])) = Inr [format_match stub_match]"
    by (simp add: engine_defs stub_defs)
  then have b': "get_retrivals stub_env stub_state ''q'' 5 (Some [])
      = (Inr [format_match stub_match], snd (get_retrivals stub_env stub_state ''q'' 5 (Some [])))"
    by (simp add: prod_eq_iff)
  from empty_filter_shares_entry [of stub_env "''q''" 5 stub_state "[format_match stub_match]"
         "snd (get_retrivals stub_env stub_state ''q'' 5 None)"] a a'
  have 1: "get_retrivals stub_env (snd (get_retrivals stub_env stub_state ''q'' 5 None)) ''q'' 5 (Some [])
     = (Inr [format_match stub_match], snd (get_retrivals stub_env stub_state ''q'' 5 None))"
    by blast
  from empty_filter_shares_entry [of stub_env "''q''" 5 stub_state "[format_match stub_match]"
         "snd (get_retrivals stub_env stub_state ''q'' 5 (Some []))"] b b'
  have 2: "get_retrivals stub_env (snd (get_retrivals stub_env stub_state ''q'' 5 (Some []))) ''q'' 5 None
     = (Inr [format_match stub_match], snd (get_retrivals stub_env stub_state ''q'' 5 (Some [])))"
    by blast
  from a b 1 2 show ?thesis by blast
qed

subsection \<open>Construction of the engine\<close>

text \<open>
  C8. Construction loads the retrieval cache from the snapshot file. Once the directory,
  the embedding cache and the index client are set up, the constructor returns an engine
  whatever the file holds: the stored cache if it can be read, the empty cache if the
  file is missing or cannot be unpickled.
\<close>

theorem init_engine_load_nonfatal:
  assumes "makedirs env = None" and "embedding_cache_init env = None" and "pinecone_init env = None"
  shows "\<exists>s. init_engine env h d = Inr s \<and>
           retrieval_cache s = (case d of Stored c \<Rightarrow> c | NoFile \<Rightarrow> [] | Unreadable \<Rightarrow> []) \<and>
           (d = NoFile \<or> d = Unreadable \<longrightarrow> retrieval_cache s = [])"
  using assms by (auto simp: init_engine_def load_retrieval_cache_def split: snapshot.splits)

theorem init_engine_load_nonfatal_witness:
  "makedirs stub_env = None \<and> embedding_cache_init stub_env = None \<and> pinecone_init stub_env = None \<and>
   (\<exists>s. init_engine stub_env (\<lambda>a. []) Unreadable = Inr s \<and> retrieval_cache s = []) \<and>
   (\<exists>s. init_engine stub_env (\<lambda>a. []) NoFile = Inr s \<and> retrieval_cache s = [])"
proof -
  have a: "makedirs stub_env = None" and b: "embedding_cache_init stub_env = None"
    and c: "pinecone_init stub_env = None"
    by (simp_all add: stub_env_def)
  from init_engine_load_nonfatal [OF a b c, of "\<lambda>a. []" Unreadable]
       init_engine_load_nonfatal [OF a b c, of "\<lambda>a. []" NoFile] a b c
  show ?thesis by auto
qed

subsection \<open>Retrieval\<close>

text \<open>
  C4. When the fingerprint of a call to \<open>get_retrivals\<close> is in the retrieval cache, the
  cached list is returned and the state is untouched: nothing is asked of the embedding
  cache or the index. When it is absent, the embedding of the query is obtained, the
  index is queried with that vector, \<open>top_k\<close> and the filter, every match is reduced to
  its id, score and metadata, the list is stored under the fingerprint, the cache is
  written to the snapshot file, and the list is returned.
\<close>

theorem get_retrivals_contract:
  "(getitem (retrieval_cache s) (generate_retrieval_key env q k f) = Some cached \<longrightarrow>
      get_retrivals env s q k f = (Inr cached, s)) \<and>
   (getitem (retrieval_cache s) (generate_retrieval_key env q k f) = None \<longrightarrow>
    get_embedding env (trace s) q = Inr v \<longrightarrow>
    index_query env (trace s @ [EvGetEmbedding q]) v k f = Inr ms \<longrightarrow>
      (\<exists>s' recs. get_retrivals env s q k f = (Inr recs, s') \<and>
         recs = map (\<lambda>m. \<lparr>rec_id = match_id m, rec_score = match_score m,
                            rec_metadata = match_metadata m\<rparr>) ms \<and>
         length recs = length ms \<and>
         (\<forall>i < length ms.
            rec_id (recs ! i) = match_id (ms ! i) \<and>
            rec_score (recs ! i) = match_score (ms ! i) \<and>
            rec_metadata (recs ! i) = match_metadata (ms ! i)) \<and>
         retrieval_cache s' =
           setitem (retrieval_cache s) (generate_retrieval_key env q k f) recs \<and>
         getitem (retrieval_cache s') (generate_retrieval_key env q k f) = Some recs \<and>
         trace s' = trace s @ [EvGetEmbedding q, EvQuery v k f, EvDump (retrieval_cache s')] \<and>
         (dump_snapshot env (trace s @ [EvGetEmbedding q, EvQuery v k f]) (retrieval_cache s')
            = DumpOk \<longrightarrow> disk s' = Stored (retrieval_cache s')) \<and>
         heap s' = heap s))"
proof -
  let ?key = "generate_retrieval_key env q k f"
  let ?recs = "map (\<lambda>m. \<lparr>rec_id = match_id m, rec_score = match_score m,
                            rec_metadata = match_metadata m\<rparr>) ms"
  have fm: "map format_match ms = ?recs"
    by (simp add: format_match_def)
  have fields: "\<forall>i < length ms.
            rec_id (?recs ! i) = match_id (ms ! i) \<and>
            rec_score (?recs ! i) = match_score (ms ! i) \<and>
            rec_metadata (?recs ! i) = match_metadata (ms ! i)"
    by simp
  have hit: "get_retrivals env s q k f = (Inr cached, s)"
    if "getitem (retrieval_cache s) ?key = Some cached"
    using that by (rule get_retrivals_hit)
  have miss: "\<exists>s'. get_retrivals env s q k f = (Inr ?recs, s') \<and>
         retrieval_cache s' = setitem (retrieval_cache s) ?key ?recs \<and>
         getitem (retrieval_cache s') ?key = Some ?recs \<and>
         trace s' = trace s @ [EvGetEmbedding q, EvQuery v k f, EvDump (retrieval_cache s')] \<and>
         (dump_snapshot env (trace s @ [EvGetEmbedding q, EvQuery v k f]) (retrieval_cache s')
            = DumpOk \<longrightarrow> disk s' = Stored (retrieval_cache s')) \<and>
         heap s' = heap s"
    if "getitem (retrieval_cache s) ?key = None"
      and "get_embedding env (trace s) q = Inr v"
      and "index_query env (trace s @ [EvGetEmbedding q]) v k f = Inr ms"
    using that unfolding fm [symmetric]
    by (simp add: get_retrivals_def Let_def log_def save_retrieval_cache_def getitem_def
                  setitem_def update_conv')
  have miss': "\<exists>s' recs. get_retrivals env s q k f = (Inr recs, s') \<and>
         recs = ?recs \<and>
         length recs = length ms \<and>
         (\<forall>i < length ms.
            rec_id (recs ! i) = match_id (ms ! i) \<and>
            rec_score (recs ! i) = match_score (ms ! i) \<and>
            rec_metadata (recs ! i) = match_metadata (ms ! i)) \<and>
         retrieval_cache s' = setitem (retrieval_cache s) ?key recs \<and>
         getitem (retrieval_cache s') ?key = Some recs \<and>
         trace s' = trace s @ [EvGetEmbedding q, EvQuery v k f, EvDump (retrieval_cache s')] \<and>
         (dump_snapshot env (trace s @ [EvGetEmbedding q, EvQuery v k f]) (retrieval_cache s')
            = DumpOk \<longrightarrow> disk s' = Stored (retrieval_cache s')) \<and>
         heap s' = heap s"
    if "getitem (retrieval_cache s) ?key = None"
      and "get_embedding env (trace s) q = Inr v"
      and "index_query env (trace s @ [EvGetEmbedding q]) v k f = Inr ms"
  proof -
    from miss [OF that] obtain s' where s': "get_retrivals env s q k f = (Inr ?recs, s')"
         "retrieval_cache s' = setitem (retrieval_cache s) ?key ?recs"
         "getitem (retrieval_cache s') ?key = Some ?recs"
         "trace s' = trace s @ [EvGetEmbedding q, EvQuery v k f, EvDump (retrieval_cache s')]"
         "dump_snapshot env (trace s @ [EvGetEmbedding q, EvQuery v k f]) (retrieval_cache s')
            = DumpOk \<longrightarrow> disk s' = Stored (retrieval_cache s')"
         "heap s' = heap s"
      by blast
    have len: "length ?recs = length ms" by simp
    from s' len fields show ?thesis
      by (intro exI [of _ s'] exI [of _ ?recs] conjI) (rule refl | assumption)+
  qed
  from hit miss' show ?thesis by blast
qed

theorem get_retrivals_contract_witness:
  "getitem (retrieval_cache stub_state) (generate_retrieval_key stub_env ''q'' 5 None) = None \<and>
   get_embedding stub_env (trace stub_state) ''q'' = Inr [1] \<and>
   index_query stub_env (trace stub_state @ [EvGetEmbedding ''q'']) [1] 5 None
     = Inr [\<lparr>match_id = ''m1'', match_score = 7, match_metadata = [(''content'', PyStr ''x'')],
             match_values = [1, 2]\<rparr>] \<and>
   fst (get_retrivals stub_env stub_state ''q'' 5 None)
     = Inr [\<lparr>rec_id = ''m1'', rec_score = 7, rec_metadata = [(''content'', PyStr ''x'')]\<rparr>] \<and>
   getitem (retrieval_cache (snd (get_retrivals stub_env stub_state ''q'' 5 None)))
      (generate_retrieval_key stub_env ''q'' 5 None)
     = Some [\<lparr>rec_id = ''m1'', rec_score = 7, rec_metadata = [(''content'', PyStr ''x'')]\<rparr>] \<and>
   get_retrivals stub_env (snd (get_retrivals stub_env stub_state ''q'' 5 None)) ''q'' 5 None
     = (Inr [\<lparr>rec_id = ''m1'', rec_score = 7, rec_metadata = [(''content'', PyStr ''x'')]\<rparr>],
        snd (get_retrivals stub_env stub_state ''q'' 5 None))"
proof -
  let ?s' = "snd (get_retrivals stub_env stub_state ''q'' 5 None)"
  let ?key = "generate_retrieval_key stub_env ''q'' 5 None"
  let ?m = "\<lparr>match_id = ''m1'', match_score = 7, match_metadata = [(''content'', PyStr ''x'')],
             match_values = [1, 2]\<rparr>"
  let ?r = "\<lparr>rec_id = ''m1'', rec_score = 7, rec_metadata = [(''content'', PyStr ''x'')]\<rparr>"
  have a: "getitem (retrieval_cache stub_state) ?key = None"
    by (simp add: stub_state_def getitem_def)
  have b: "get_embedding stub_env (trace stub_state) ''q'' = Inr [1]"
    by (simp add: stub_env_def)
  have c: "index_query stub_env (trace stub_state @ [EvGetEmbedding ''q'']) [1] 5 None = Inr [?m]"
    by (simp add: stub_env_def stub_match_def)
  from get_retrivals_contract [where s = stub_state and env = stub_env and q = "''q''" and k = 5
         and f = None and v = "[1]" and ms = "[?m]"] a b c
  have miss: "fst (get_retrivals stub_env stub_state ''q'' 5 None) = Inr [?r] \<and>
      getitem (retrieval_cache ?s') ?key = Some [?r]"
    by auto
  with get_retrivals_contract [where s = ?s' and env = stub_env and q = "''q''" and k = 5
         and f = None and cached = "[?r]"]
  have hit: "get_retrivals stub_env ?s' ''q'' 5 None = (Inr [?r], ?s')"
    by blast
  from a b c miss hit show ?thesis by blast
qed

subsection \<open>Adding one item\<close>

text \<open>
  C5. A call to \<open>add_item\<close> that returns has written \<open>content\<close> and \<open>item_type\<close> into
  the caller's metadata dictionary, obtained the embedding from the embedding cache, drawn
  a fresh id from \<open>uuid4\<close>, sent exactly one upsert holding the single vector of that id,
  embedding and metadata, emptied the retrieval cache, written the empty cache to the
  snapshot file, and returned the id.
\<close>

theorem add_item_success:
  assumes "add_item env s content metadata item_type = (Inr item_id, s')"
  shows "\<exists>embedding.
     get_embedding env (trace s) content = Inr embedding \<and>
     item_id = uuid4 env (trace s @ [EvGetEmbedding content]) \<and>
     heap s' = (heap s)(metadata := merge_metadata (heap s metadata) content item_type) \<and>
     getitem (heap s' metadata) ''content'' = Some (PyStr content) \<and>
     getitem (heap s' metadata) ''item_type'' = Some (PyStr item_type) \<and>
     index_upsert env (trace s @ [EvGetEmbedding content, EvUuid4])
        [\<lparr>vec_id = item_id, vec_values = embedding, vec_metadata = heap s' metadata\<rparr>] = None \<and>
     trace s' = trace s @
        [EvGetEmbedding content, EvUuid4,
         EvUpsert [\<lparr>vec_id = item_id, vec_values = embedding, vec_metadata = heap s' metadata\<rparr>],
         EvDump []] \<and>
     retrieval_cache s' = [] \<and>
     (dump_snapshot env
        (trace s @ [EvGetEmbedding content, EvUuid4,
           EvUpsert [\<lparr>vec_id = item_id, vec_values = embedding, vec_metadata = heap s' metadata\<rparr>]])
        [] = DumpOk \<longrightarrow> disk s' = Stored [])"
proof -
  from assms obtain embedding where e: "get_embedding env (trace s) content = Inr embedding"
    by (cases "get_embedding env (trace s) content") (auto simp: add_item_def Let_def)
  have md: "getitem (merge_metadata d content item_type) ''content'' = Some (PyStr content) \<and>
            getitem (merge_metadata d content item_type) ''item_type'' = Some (PyStr item_type)" for d
    by (simp add: merge_metadata_def getitem_def setitem_def update_conv')
  from assms e md show ?thesis
    by (auto simp: add_item_def Let_def log_def save_retrieval_cache_def split: option.splits)
qed

theorem add_item_success_witness:
  "fst (add_item stub_env stub_state ''hello'' 0 ''article'') = Inr ''uuid-1'' \<and>
   retrieval_cache (snd (add_item stub_env stub_state ''hello'' 0 ''article'')) = [] \<and>
   heap (snd (add_item stub_env stub_state ''hello'' 0 ''article'')) 0
     = [(''content'', PyStr ''hello''), (''item_type'', PyStr ''article'')] \<and>
   trace (snd (add_item stub_env stub_state ''hello'' 0 ''article''))
     = [EvGetEmbedding ''hello'', EvUuid4,
        EvUpsert [\<lparr>vec_id = ''uuid-1'', vec_values = [5],
                    vec_metadata = [(''content'', PyStr ''hello''), (''item_type'', PyStr ''article'')]\<rparr>],
        EvDump []]"
proof -
  let ?s' = "snd (add_item stub_env stub_state ''hello'' 0 ''article'')"
  have ok: "fst (add_item stub_env stub_state ''hello'' 0 ''article'') = Inr ''uuid-1''"
    by (simp add: engine_defs stub_defs)
  then have run: "add_item stub_env stub_state ''hello'' 0 ''article'' = (Inr ''uuid-1'', ?s')"
    by (simp add: prod_eq_iff)
  have emb: "get_embedding stub_env (trace stub_state) ''hello'' = Inr [5]"
    by (simp add: stub_env_def)
  have md: "merge_metadata (heap stub_state 0) ''hello'' ''article''
      = [(''content'', PyStr ''hello''), (''item_type'', PyStr ''article'')]"
    by (simp add: merge_metadata_def setitem_def stub_state_def)
  from add_item_success [OF run] emb md have
    "retrieval_cache ?s' = [] \<and>
     heap ?s' 0 = [(''content'', PyStr ''hello''), (''item_type'', PyStr ''article'')] \<and>
     trace ?s' = [EvGetEmbedding ''hello'', EvUuid4,
        EvUpsert [\<lparr>vec_id = ''uuid-1'', vec_values = [5],
                    vec_metadata = [(''content'', PyStr ''hello''), (''item_type'', PyStr ''article'')]\<rparr>],
        EvDump []]"
    by (auto simp: stub_state_def)
  with ok show ?thesis by blast
qed

subsection \<open>Ids of a batch\<close>

lemma build_vectors_ids:
  "build_vectors i zs item_types h = (Inr refs, h') \<Longrightarrow>
     map fst refs = map (\<lambda>j. ''item_'' @ str_nat j) [i..<i + length zs]"
proof (induction zs arbitrary: i h refs h')
  case Nil
  then show ?case by simp
next
  case (Cons z zs)
  obtain content metadata embedding where z: "z = (content, metadata, embedding)"
    by (cases z)
  from Cons.prems z obtain item_type where t: "subscript item_types i = Inr item_type"
    by (cases "subscript item_types i") (auto simp: Let_def)
  let ?h2 = "(h(metadata := setitem (h metadata) ''content'' (PyStr content)))
               (metadata := setitem ((h(metadata := setitem (h metadata) ''content'' (PyStr content))) metadata)
                              ''item_type'' (PyStr item_type))"
  obtain r1 h1 where rec: "build_vectors (Suc i) zs item_types ?h2 = (r1, h1)"
    by (cases "build_vectors (Suc i) zs item_types ?h2")
  from Cons.prems z t rec obtain vs where r1: "r1 = Inr vs"
      and refs: "refs = (''item_'' @ str_nat i, embedding, metadata) # vs"
    by (cases r1) (auto simp: Let_def)
  from Cons.IH [OF rec [unfolded r1]]
  have "map fst vs = map (\<lambda>j. ''item_'' @ str_nat j) [Suc i..<Suc i + length zs]" .
  moreover have "[i..<i + length (z # zs)] = i # [Suc i..<Suc i + length zs]"
    by (simp add: upt_rec)
  ultimately show ?case
    by (simp only: refs list.map fst_conv)
qed

lemma bulk_add_items_ids:
  assumes "bulk_add_items env s contents metadatas item_types = (Inr ids, s')"
  shows "ids = map (\<lambda>i. ''item_'' @ str_nat i) [0..<length contents]"
proof -
  from assms have len: "length contents = length metadatas" "length metadatas = length item_types"
    by (auto simp: bulk_add_items_def split: if_splits)
  from assms len obtain embeddings s1 where
    e: "embed_all env s contents = (Inr embeddings, s1)"
    by (cases "embed_all env s contents"; cases "fst (embed_all env s contents)")
       (auto simp: bulk_add_items_def)
  from embed_all_success [OF e] have le: "length embeddings = length contents" by simp
  let ?zs = "zip contents (zip metadatas embeddings)"
  from assms len e obtain refs h where
    b: "build_vectors 0 ?zs item_types (heap s1) = (Inr refs, h)"
    by (cases "build_vectors 0 ?zs item_types (heap s1)";
        cases "fst (build_vectors 0 ?zs item_types (heap s1))")
       (auto simp: bulk_add_items_def)
  from assms len e b have ids: "ids = map vec_id (map (resolve h) refs)"
    by (auto simp: bulk_add_items_def Let_def split: option.splits)
  have "map vec_id (map (resolve h) refs) = map fst refs"
    by (simp add: resolve_def split_def comp_def)
  with build_vectors_ids [OF b] ids len le show ?thesis
    by simp
qed

text \<open>
  C6. The ids returned by a successful \<open>bulk_add_items\<close> are \<open>item_0\<close>, \<open>item_1\<close>, ...
  in the order of the inputs: the id at a position depends on the position alone. Two
  successful calls therefore return the same ids on their common positions, and two
  non-empty batches both contain \<open>item_0\<close>.
\<close>

theorem bulk_add_items_ids_positional:
  assumes "bulk_add_items env s1 contents1 metadatas1 item_types1 = (Inr ids1, s1')"
      and "bulk_add_items env s2 contents2 metadatas2 item_types2 = (Inr ids2, s2')"
  shows "ids1 = map (\<lambda>i. ''item_'' @ str_nat i) [0..<length contents1] \<and>
         (\<forall>i < length contents1. ids1 ! i = ''item_'' @ str_nat i) \<and>
         (\<forall>i. i < length contents1 \<and> i < length contents2 \<longrightarrow> ids1 ! i = ids2 ! i) \<and>
         (contents1 \<noteq> [] \<and> contents2 \<noteq> [] \<longrightarrow> ''item_0'' \<in> set ids1 \<inter> set ids2)"
proof -
  have 1: "ids1 = map (\<lambda>i. ''item_'' @ str_nat i) [0..<length contents1]"
    using assms(1) by (rule bulk_add_items_ids)
  have 2: "ids2 = map (\<lambda>i. ''item_'' @ str_nat i) [0..<length contents2]"
    using assms(2) by (rule bulk_add_items_ids)
  have zero: "''item_'' @ str_nat 0 = ''item_0''"
    by (simp add: str_nat.simps digit_char_def)
  have "''item_0'' \<in> set ids1 \<inter> set ids2" if "contents1 \<noteq> []" "contents2 \<noteq> []"
  proof -
    from that have "0 < length contents1" "0 < length contents2" by simp_all
    then have "ids1 ! 0 = ''item_0''" "ids2 ! 0 = ''item_0''" "0 < length ids1" "0 < length ids2"
      using zero by (simp_all add: 1 2)
    then show ?thesis
      by (metis IntI nth_mem)
  qed
  moreover have "\<forall>i < length contents1. ids1 ! i = ''item_'' @ str_nat i"
    by (simp add: 1)
  moreover have "\<forall>i. i < length contents1 \<and> i < length contents2 \<longrightarrow> ids1 ! i = ids2 ! i"
    by (simp add: 1 2)
  ultimately show ?thesis using 1 by blast
qed

theorem bulk_add_items_ids_positional_witness:
  "fst (bulk_add_items stub_env stub_state [''x'', ''y''] [0, 1] [''t'', ''u'']) = Inr [''item_0'', ''item_1''] \<and>
   fst (bulk_add_items stub_env (snd (bulk_add_items stub_env stub_state [''x'', ''y''] [0, 1] [''t'', ''u'']))
          [''z''] [2] [''t'']) = Inr [''item_0''] \<and>
   ''item_0'' \<in> set [''item_0'', ''item_1''] \<inter> set [''item_0'']"
proof -
  let ?s' = "snd (bulk_add_items stub_env stub_state [''x'', ''y''] [0, 1] [''t'', ''u''])"
  let ?s'' = "snd (bulk_add_items stub_env ?s' [''z''] [2] [''t''])"
  have a: "fst (bulk_add_items stub_env stub_state [''x'', ''y''] [0, 1] [''t'', ''u'']) = Inr [''item_0'', ''item_1'']"
    by (simp add: engine_defs stub_defs)
  then have a': "bulk_add_items stub_env stub_state [''x'', ''y''] [0, 1] [''t'', ''u''] = (Inr [''item_0'', ''item_1''], ?s')"
    by (simp add: prod_eq_iff)
  have b: "fst (bulk_add_items stub_env ?s' [''z''] [2] [''t'']) = Inr [''item_0'']"
    by (simp add: engine_defs stub_defs)
  then have b': "bulk_add_items stub_env ?s' [''z''] [2] [''t''] = (Inr [''item_0''], ?s'')"
    by (simp add: prod_eq_iff)
  from bulk_add_items_ids_positional [OF a' b'] a b show ?thesis
    by auto
qed

subsection \<open>Failures of the snapshot write\<close>

lemma same_memory_save:
  "same_memory s t \<Longrightarrow> same_memory (save_retrieval_cache env1 s) (save_retrieval_cache env2 t)"
  by (simp add: same_memory_def save_retrieval_cache_fields)

lemma same_memory_log:
  "same_memory s t \<Longrightarrow> same_memory (log ev s) (log ev t)"
  by (simp add: same_memory_def log_fields)

lemma same_memory_embed_all:
  assumes "same_memory s t"
  shows "fst (embed_all (env\<lparr>dump_snapshot := d\<rparr>) s cs) = fst (embed_all env t cs) \<and>
         same_memory (snd (embed_all (env\<lparr>dump_snapshot := d\<rparr>) s cs)) (snd (embed_all env t cs))"
  using assms
proof (induction cs arbitrary: s t)
  case Nil
  then show ?case by simp
next
  case (Cons c cs)
  from Cons.prems have tr: "trace s = trace t"
    by (simp add: same_memory_def)
  show ?case
  proof (cases "get_embedding env (trace t) c")
    case (Inl e)
    with tr Cons.prems show ?thesis
      by (simp add: same_memory_log)
  next
    case (Inr v)
    from Cons.IH [OF same_memory_log [OF Cons.prems, of "EvGetEmbedding c"]]
    show ?thesis
      using tr Inr by (simp add: split_def split: sum.splits)
  qed
qed

lemma same_memory_add_item:
  assumes "same_memory s t"
  shows "fst (add_item (env\<lparr>dump_snapshot := d\<rparr>) s c m ty) = fst (add_item env t c m ty) \<and>
         same_memory (snd (add_item (env\<lparr>dump_snapshot := d\<rparr>) s c m ty)) (snd (add_item env t c m ty))"
  using assms
  by (auto simp: add_item_def Let_def same_memory_def log_fields save_retrieval_cache_fields
           split: sum.splits option.splits)

lemma same_memory_get_retrivals:
  assumes "same_memory s t"
  shows "fst (get_retrivals (env\<lparr>dump_snapshot := d\<rparr>) s q k f) = fst (get_retrivals env t q k f) \<and>
         same_memory (snd (get_retrivals (env\<lparr>dump_snapshot := d\<rparr>) s q k f)) (snd (get_retrivals env t q k f))"
proof -
  have "repr_item (env\<lparr>dump_snapshot := d\<rparr>) = repr_item env"
    by (rule ext) (simp add: repr_item_def)
  then have key: "generate_retrieval_key (env\<lparr>dump_snapshot := d\<rparr>) q k f = generate_retrieval_key env q k f"
    by (simp add: generate_retrieval_key_def str_items_def)
  from assms show ?thesis
    by (auto simp: get_retrivals_def key Let_def same_memory_def log_fields save_retrieval_cache_fields
             split: sum.splits option.splits)
qed

lemma same_memory_delete_item:
  assumes "same_memory s t"
  shows "fst (delete_item (env\<lparr>dump_snapshot := d\<rparr>) s i) = fst (delete_item env t i) \<and>
         same_memory (snd (delete_item (env\<lparr>dump_snapshot := d\<rparr>) s i)) (snd (delete_item env t i))"
  using assms
  by (auto simp: delete_item_def same_memory_def log_fields save_retrieval_cache_fields
           split: option.splits)

lemma same_memory_clear:
  assumes "same_memory s t"
  shows "fst (clear_retrieval_cache (env\<lparr>dump_snapshot := d\<rparr>) s) = fst (clear_retrieval_cache env t) \<and>
         same_memory (snd (clear_retrieval_cache (env\<lparr>dump_snapshot := d\<rparr>) s)) (snd (clear_retrieval_cache env t))"
  using assms
  by (auto simp: clear_retrieval_cache_def same_memory_def save_retrieval_cache_fields)

lemma same_memory_bulk_add_items:
  assumes "same_memory s t"
  shows "fst (bulk_add_items (env\<lparr>dump_snapshot := d\<rparr>) s cs ms ts) = fst (bulk_add_items env t cs ms ts) \<and>
         same_memory (snd (bulk_add_items (env\<lparr>dump_snapshot := d\<rparr>) s cs ms ts))
                     (snd (bulk_add_items env t cs ms ts))"
proof -
  obtain r1 s1 where e1: "embed_all (env\<lparr>dump_snapshot := d\<rparr>) s cs = (r1, s1)"
    by (cases "embed_all (env\<lparr>dump_snapshot := d\<rparr>) s cs")
  obtain r2 t1 where e2: "embed_all env t cs = (r2, t1)"
    by (cases "embed_all env t cs")
  from same_memory_embed_all [OF assms, where env = env and d = d and cs = cs] e1 e2
  have r: "r1 = r2" and m: "same_memory s1 t1" by simp_all
  from m have f: "heap s1 = heap t1" "trace s1 = trace t1" "retrieval_cache s1 = retrieval_cache t1"
    by (simp_all add: same_memory_def)
  show ?thesis
  proof (cases "length cs = length ms \<and> length ms = length ts")
    case False
    with assms show ?thesis by (auto simp: bulk_add_items_def)
  next
    case True
    show ?thesis
    proof (cases r2)
      case (Inl e)
      with True e1 e2 r m show ?thesis by (simp add: bulk_add_items_def)
    next
      case (Inr vs)
      obtain rb h where b: "build_vectors 0 (zip cs (zip ms vs)) ts (heap t1) = (rb, h)"
        by (cases "build_vectors 0 (zip cs (zip ms vs)) ts (heap t1)")
      from True e1 e2 r Inr b f show ?thesis
        by (auto simp: bulk_add_items_def Let_def same_memory_def log_fields save_retrieval_cache_fields
                 split: sum.splits option.splits)
    qed
  qed
qed

text \<open>
  C7. Whether the write of the snapshot succeeds or fails has no effect on what an
  operation returns, nor on the cache in memory, the heap or the calls made: replacing
  the file system's behaviour by any other changes the file at most. In particular no
  operation raises because the write failed.
\<close>

theorem persistence_failure_swallowed:
  assumes "same_memory s t"
  shows "fst (exec_op (env\<lparr>dump_snapshot := d\<rparr>) s op) = fst (exec_op env t op) \<and>
         same_memory (snd (exec_op (env\<lparr>dump_snapshot := d\<rparr>) s op)) (snd (exec_op env t op))"
proof (cases op)
  case (AddItem c m ty)
  with same_memory_add_item [OF assms, where env = env and d = d and c = c and m = m and ty = ty] show ?thesis
    by (simp add: split_def)
next
  case (BulkAddItems cs ms ts)
  with same_memory_bulk_add_items [OF assms, where env = env and d = d and cs = cs and ms = ms and ts = ts] show ?thesis
    by (simp add: split_def)
next
  case (GetRetrivals q k f)
  with same_memory_get_retrivals [OF assms, where env = env and d = d and q = q and k = k and f = f] show ?thesis
    by (simp add: split_def)
next
  case (DeleteItem i)
  with same_memory_delete_item [OF assms, where env = env and d = d and i = i] show ?thesis
    by (simp add: split_def)
next
  case ClearRetrievalCache
  with same_memory_clear [OF assms, where env = env and d = d] show ?thesis
    by (simp add: split_def)
qed

theorem persistence_failure_swallowed_witness:
  "same_memory stub_state stub_state \<and>
   dump_snapshot (stub_env\<lparr>dump_snapshot := \<lambda>tr c. DumpFailed\<rparr>) [] [] = DumpFailed \<and>
   fst (exec_op (stub_env\<lparr>dump_snapshot := \<lambda>tr c. DumpFailed\<rparr>) stub_state (AddItem ''hello'' 0 ''article''))
     = Inr (ItemId ''uuid-1'') \<and>
   disk (snd (exec_op (stub_env\<lparr>dump_snapshot := \<lambda>tr c. DumpFailed\<rparr>) stub_state (AddItem ''hello'' 0 ''article'')))
     = Unreadable \<and>
   disk (snd (exec_op stub_env stub_state (AddItem ''hello'' 0 ''article''))) = Stored [] \<and>
   same_memory
     (snd (exec_op (stub_env\<lparr>dump_snapshot := \<lambda>tr c. DumpFailed\<rparr>) stub_state (AddItem ''hello'' 0 ''article'')))
     (snd (exec_op stub_env stub_state (AddItem ''hello'' 0 ''article'')))"
proof -
  have m: "same_memory stub_state stub_state"
    by (simp add: same_memory_def)
  have ok: "fst (exec_op stub_env stub_state (AddItem ''hello'' 0 ''article'')) = Inr (ItemId ''uuid-1'')"
    by (simp add: engine_defs stub_defs)
  have d1: "disk (snd (exec_op (stub_env\<lparr>dump_snapshot := \<lambda>tr c. DumpFailed\<rparr>) stub_state (AddItem ''hello'' 0 ''article'')))
     = Unreadable"
    by (simp add: engine_defs stub_defs)
  have d2: "disk (snd (exec_op stub_env stub_state (AddItem ''hello'' 0 ''article''))) = Stored []"
    by (simp add: engine_defs stub_defs)
  from persistence_failure_swallowed [OF m, where env = stub_env and d = "\<lambda>tr c. DumpFailed"
         and op = "AddItem ''hello'' 0 ''article''"]
       m ok d1 d2
  show ?thesis by simp
qed

subsection \<open>The caller's metadata dictionaries\<close>

lemma getitem_setitem:
  "getitem (setitem d k v) k' = (if k' = k then Some v else getitem d k')"
  by (simp add: getitem_def setitem_def update_conv')

lemma build_vectors_other_keys:
  "build_vectors i zs item_types h = (r, h') \<Longrightarrow> k \<noteq> ''content'' \<Longrightarrow> k \<noteq> ''item_type'' \<Longrightarrow>
     getitem (h' a) k = getitem (h a) k"
proof (induction zs arbitrary: i h r h')
  case Nil
  then show ?case by simp
next
  case (Cons z zs)
  obtain content metadata embedding where z: "z = (content, metadata, embedding)"
    by (cases z)
  let ?h1 = "h(metadata := setitem (h metadata) ''content'' (PyStr content))"
  have h1: "getitem (?h1 a) k = getitem (h a) k"
    using Cons.prems(2) by (simp add: getitem_setitem)
  show ?case
  proof (cases "subscript item_types i")
    case (Inl e)
    with Cons.prems(1) z h1 show ?thesis by (auto simp: Let_def)
  next
    case (Inr item_type)
    let ?h2 = "?h1(metadata := setitem (?h1 metadata) ''item_type'' (PyStr item_type))"
    have h2: "getitem (?h2 a) k = getitem (h a) k"
      using Cons.prems(2,3) by (simp add: getitem_setitem)
    obtain r1 h3 where rec: "build_vectors (Suc i) zs item_types ?h2 = (r1, h3)"
      by (cases "build_vectors (Suc i) zs item_types ?h2")
    from Cons.prems(1) z Inr rec have "h' = h3"
      by (cases r1) (auto simp: Let_def)
    with Cons.IH [OF rec Cons.prems(2,3)] h2 show ?thesis by simp
  qed
qed

lemma build_vectors_other_addrs:
  "build_vectors i zs item_types h = (r, h') \<Longrightarrow> a \<notin> set (map (\<lambda>z. fst (snd z)) zs) \<Longrightarrow> h' a = h a"
proof (induction zs arbitrary: i h r h')
  case Nil
  then show ?case by simp
next
  case (Cons z zs)
  obtain content metadata embedding where z: "z = (content, metadata, embedding)"
    by (cases z)
  from Cons.prems(2) z have ne: "a \<noteq> metadata" and rest: "a \<notin> set (map (\<lambda>z. fst (snd z)) zs)"
    by auto
  let ?h1 = "h(metadata := setitem (h metadata) ''content'' (PyStr content))"
  show ?case
  proof (cases "subscript item_types i")
    case (Inl e)
    with Cons.prems(1) z ne show ?thesis by (auto simp: Let_def)
  next
    case (Inr item_type)
    let ?h2 = "?h1(metadata := setitem (?h1 metadata) ''item_type'' (PyStr item_type))"
    obtain r1 h3 where rec: "build_vectors (Suc i) zs item_types ?h2 = (r1, h3)"
      by (cases "build_vectors (Suc i) zs item_types ?h2")
    from Cons.prems(1) z Inr rec have "h' = h3"
      by (cases r1) (auto simp: Let_def)
    with Cons.IH [OF rec rest] ne show ?thesis by simp
  qed
qed

lemma build_vectors_last_position:
  "build_vectors i zs item_types h = (Inr refs, h') \<Longrightarrow> j < length zs \<Longrightarrow>
   (\<forall>j'. j < j' \<and> j' < length zs \<longrightarrow> fst (snd (zs ! j')) \<noteq> fst (snd (zs ! j))) \<Longrightarrow>
     getitem (h' (fst (snd (zs ! j)))) ''content'' = Some (PyStr (fst (zs ! j))) \<and>
     getitem (h' (fst (snd (zs ! j)))) ''item_type'' = Some (PyStr (item_types ! (i + j))) \<and>
     i + j < length item_types"
proof (induction zs arbitrary: i h refs h' j)
  case Nil
  then show ?case by simp
next
  case (Cons z zs)
  obtain content metadata embedding where z: "z = (content, metadata, embedding)"
    by (cases z)
  let ?h1 = "h(metadata := setitem (h metadata) ''content'' (PyStr content))"
  from Cons.prems(1) z obtain item_type where t: "subscript item_types i = Inr item_type"
    by (cases "subscript item_types i") (auto simp: Let_def)
  then have ti: "i < length item_types" "item_type = item_types ! i"
    by (auto simp: subscript_def split: if_splits)
  let ?h2 = "?h1(metadata := setitem (?h1 metadata) ''item_type'' (PyStr item_type))"
  obtain r1 h3 where rec: "build_vectors (Suc i) zs item_types ?h2 = (r1, h3)"
    by (cases "build_vectors (Suc i) zs item_types ?h2")
  from Cons.prems(1) z t rec obtain vs where r1: "r1 = Inr vs" and h': "h' = h3"
    by (cases r1) (auto simp: Let_def)
  show ?case
  proof (cases j)
    case 0
    have "metadata \<notin> set (map (\<lambda>z. fst (snd z)) zs)"
    proof
      assume "metadata \<in> set (map (\<lambda>z. fst (snd z)) zs)"
      then obtain n where n: "n < length zs" "fst (snd (zs ! n)) = metadata"
        by (auto simp: in_set_conv_nth)
      with Cons.prems(3) [rule_format, of "Suc n"] 0 z show False by simp
    qed
    from build_vectors_other_addrs [OF rec this] have "h3 metadata = ?h2 metadata" .
    with 0 z h' ti show ?thesis
      by (simp add: getitem_setitem)
  next
    case (Suc n)
    with Cons.prems(2) have n: "n < length zs" by simp
    have later: "\<forall>j'. n < j' \<and> j' < length zs \<longrightarrow> fst (snd (zs ! j')) \<noteq> fst (snd (zs ! n))"
    proof (intro allI impI)
      fix j' assume "n < j' \<and> j' < length zs"
      with Cons.prems(3) [rule_format, of "Suc j'"] Suc
      show "fst (snd (zs ! j')) \<noteq> fst (snd (zs ! n))" by simp
    qed
    from Cons.IH [OF rec [unfolded r1] n later] Suc h' show ?thesis by simp
  qed
qed

lemma bulk_add_items_heap:
  assumes "bulk_add_items env s contents metadatas item_types = (r, s')"
  shows "heap s' = heap s \<or>
         (length contents = length metadatas \<and>
          (\<exists>embeddings rb. length embeddings = length contents \<and>
             build_vectors 0 (zip contents (zip metadatas embeddings)) item_types (heap s)
               = (rb, heap s')))"
proof (cases "length contents = length metadatas \<and> length metadatas = length item_types")
  case False
  with assms show ?thesis by (auto simp: bulk_add_items_def)
next
  case True
  obtain r1 s1 where e: "embed_all env s contents = (r1, s1)"
    by (cases "embed_all env s contents")
  from embed_all_fields [OF e] have hs1: "heap s1 = heap s" by simp
  show ?thesis
  proof (cases r1)
    case (Inl ex)
    with assms True e hs1 show ?thesis by (auto simp: bulk_add_items_def)
  next
    case (Inr embeddings)
    from embed_all_success [OF e [unfolded Inr]] have le: "length embeddings = length contents"
      by simp
    obtain rb h where b: "build_vectors 0 (zip contents (zip metadatas embeddings)) item_types (heap s1) = (rb, h)"
      by (cases "build_vectors 0 (zip contents (zip metadatas embeddings)) item_types (heap s1)")
    from assms True e Inr b have "heap s' = h"
      by (cases rb)
         (auto simp: bulk_add_items_def Let_def log_fields save_retrieval_cache_fields
               split: option.splits)
    with True le b hs1 show ?thesis by auto
  qed
qed

lemma bulk_add_items_success_heap:
  assumes "bulk_add_items env s contents metadatas item_types = (Inr ids, s')"
  shows "length contents = length metadatas \<and> length metadatas = length item_types \<and>
         (\<exists>embeddings refs. length embeddings = length contents \<and>
             build_vectors 0 (zip contents (zip metadatas embeddings)) item_types (heap s)
               = (Inr refs, heap s'))"
proof -
  from assms have len: "length contents = length metadatas" "length metadatas = length item_types"
    by (auto simp: bulk_add_items_def split: if_splits)
  from assms len obtain embeddings s1 where e: "embed_all env s contents = (Inr embeddings, s1)"
    by (cases "embed_all env s contents"; cases "fst (embed_all env s contents)")
       (auto simp: bulk_add_items_def)
  from embed_all_fields [OF e] have hs1: "heap s1 = heap s" by simp
  from embed_all_success [OF e] have le: "length embeddings = length contents" by simp
  let ?zs = "zip contents (zip metadatas embeddings)"
  from assms len e obtain refs h where b: "build_vectors 0 ?zs item_types (heap s1) = (Inr refs, h)"
    by (cases "build_vectors 0 ?zs item_types (heap s1)";
        cases "fst (build_vectors 0 ?zs item_types (heap s1))")
       (auto simp: bulk_add_items_def)
  from assms len e b have "heap s' = h"
    by (auto simp: bulk_add_items_def Let_def log_fields save_retrieval_cache_fields
             split: option.splits)
  with len le b hs1 show ?thesis by auto
qed

lemma add_item_heap:
  "add_item env s content metadata item_type = (r, s') \<Longrightarrow>
     heap s' = (heap s)(metadata := merge_metadata (heap s metadata) content item_type)"
  by (auto simp: add_item_def Let_def log_def save_retrieval_cache_def
           split: sum.splits option.splits)

text \<open>
  C10, amended. \<open>add_item\<close>, whether it returns or raises, leaves \<open>content\<close> and
  \<open>item_type\<close> in the caller's dictionary; so does a successful \<open>bulk_add_items\<close> for
  every dictionary of the batch when the dictionaries passed are pairwise distinct
  objects. Neither method changes another key of any dictionary, nor a dictionary that
  was not passed.
\<close>

theorem metadata_merged_in_place:
  "(add_item env s content metadata item_type = (r, s') \<longrightarrow>
      getitem (heap s' metadata) ''content'' = Some (PyStr content) \<and>
      getitem (heap s' metadata) ''item_type'' = Some (PyStr item_type) \<and>
      (\<forall>a k. k \<noteq> ''content'' \<and> k \<noteq> ''item_type'' \<longrightarrow> getitem (heap s' a) k = getitem (heap s a) k) \<and>
      (\<forall>a. a \<noteq> metadata \<longrightarrow> heap s' a = heap s a)) \<and>
   (bulk_add_items env s contents metadatas item_types = (rb, sb) \<longrightarrow>
      (\<forall>a k. k \<noteq> ''content'' \<and> k \<noteq> ''item_type'' \<longrightarrow> getitem (heap sb a) k = getitem (heap s a) k) \<and>
      (\<forall>a. a \<notin> set metadatas \<longrightarrow> heap sb a = heap s a) \<and>
      ((\<exists>ids. rb = Inr ids) \<longrightarrow>
         (\<forall>i < length metadatas.
            (\<forall>j. i < j \<and> j < length metadatas \<longrightarrow> metadatas ! j \<noteq> metadatas ! i) \<longrightarrow>
              getitem (heap sb (metadatas ! i)) ''content'' = Some (PyStr (contents ! i)) \<and>
              getitem (heap sb (metadatas ! i)) ''item_type'' = Some (PyStr (item_types ! i)))) \<and>
      ((\<exists>ids. rb = Inr ids) \<and> distinct metadatas \<longrightarrow>
         (\<forall>i < length metadatas.
              getitem (heap sb (metadatas ! i)) ''content'' = Some (PyStr (contents ! i)) \<and>
              getitem (heap sb (metadatas ! i)) ''item_type'' = Some (PyStr (item_types ! i)))))"
proof (rule conjI; rule impI)
  assume a: "add_item env s content metadata item_type = (r, s')"
  note h = add_item_heap [OF a]
  show "getitem (heap s' metadata) ''content'' = Some (PyStr content) \<and>
      getitem (heap s' metadata) ''item_type'' = Some (PyStr item_type) \<and>
      (\<forall>a k. k \<noteq> ''content'' \<and> k \<noteq> ''item_type'' \<longrightarrow> getitem (heap s' a) k = getitem (heap s a) k) \<and>
      (\<forall>a. a \<noteq> metadata \<longrightarrow> heap s' a = heap s a)"
    by (simp add: h merge_metadata_def getitem_setitem)
next
  assume b: "bulk_add_items env s contents metadatas item_types = (rb, sb)"
  from bulk_add_items_heap [OF b]
  have keys: "\<forall>a k. k \<noteq> ''content'' \<and> k \<noteq> ''item_type'' \<longrightarrow> getitem (heap sb a) k = getitem (heap s a) k"
    by (auto dest: build_vectors_other_keys)
  from bulk_add_items_heap [OF b]
  have addrs: "\<forall>a. a \<notin> set metadatas \<longrightarrow> heap sb a = heap s a"
  proof
    assume "heap sb = heap s"
    then show ?thesis by simp
  next
    assume "length contents = length metadatas \<and>
          (\<exists>embeddings rb'. length embeddings = length contents \<and>
             build_vectors 0 (zip contents (zip metadatas embeddings)) item_types (heap s)
               = (rb', heap sb))"
    then obtain embeddings rb' where len: "length contents = length metadatas"
        "length embeddings = length contents"
      and bv: "build_vectors 0 (zip contents (zip metadatas embeddings)) item_types (heap s) = (rb', heap sb)"
      by blast
    from len have "map (\<lambda>z. fst (snd z)) (zip contents (zip metadatas embeddings)) = metadatas"
      by (simp add: map_fst_zip map_snd_zip flip: map_map comp_def [of fst snd])
    with build_vectors_other_addrs [OF bv] show ?thesis by simp
  qed
  have last: "getitem (heap sb (metadatas ! i)) ''content'' = Some (PyStr (contents ! i)) \<and>
              getitem (heap sb (metadatas ! i)) ''item_type'' = Some (PyStr (item_types ! i))"
    if ok: "\<exists>ids. rb = Inr ids" and i: "i < length metadatas"
      and later: "\<forall>j. i < j \<and> j < length metadatas \<longrightarrow> metadatas ! j \<noteq> metadatas ! i" for i
  proof -
    from ok obtain ids where "rb = Inr ids" by blast
    with b have b': "bulk_add_items env s contents metadatas item_types = (Inr ids, sb)" by simp
    from bulk_add_items_success_heap [OF b']
    obtain embeddings refs where len: "length contents = length metadatas"
        "length metadatas = length item_types" "length embeddings = length contents"
      and bv: "build_vectors 0 (zip contents (zip metadatas embeddings)) item_types (heap s)
                 = (Inr refs, heap sb)"
      by blast
    let ?zs = "zip contents (zip metadatas embeddings)"
    from len i have iz: "i < length ?zs" by simp
    from len have nth: "fst (snd (?zs ! n)) = metadatas ! n" "fst (?zs ! n) = contents ! n"
      if "n < length metadatas" for n
      using that by simp_all
    from later len nth i
    have "\<forall>j'. i < j' \<and> j' < length ?zs \<longrightarrow> fst (snd (?zs ! j')) \<noteq> fst (snd (?zs ! i))"
      by simp
    from build_vectors_last_position [OF bv iz this] nth [OF i] show ?thesis
      by simp
  qed
  have unshared: "(\<exists>ids. rb = Inr ids) \<longrightarrow>
         (\<forall>i < length metadatas.
            (\<forall>j. i < j \<and> j < length metadatas \<longrightarrow> metadatas ! j \<noteq> metadatas ! i) \<longrightarrow>
              getitem (heap sb (metadatas ! i)) ''content'' = Some (PyStr (contents ! i)) \<and>
              getitem (heap sb (metadatas ! i)) ''item_type'' = Some (PyStr (item_types ! i)))"
    using last by blast
  have dist: "(\<exists>ids. rb = Inr ids) \<and> distinct metadatas \<longrightarrow>
         (\<forall>i < length metadatas.
              getitem (heap sb (metadatas ! i)) ''content'' = Some (PyStr (contents ! i)) \<and>
              getitem (heap sb (metadatas ! i)) ''item_type'' = Some (PyStr (item_types ! i)))"
  proof (intro impI allI)
    fix i assume h: "(\<exists>ids. rb = Inr ids) \<and> distinct metadatas" and i: "i < length metadatas"
    then have "\<forall>j. i < j \<and> j < length metadatas \<longrightarrow> metadatas ! j \<noteq> metadatas ! i"
      by (auto simp: nth_eq_iff_index_eq)
    with last h i show "getitem (heap sb (metadatas ! i)) ''content'' = Some (PyStr (contents ! i)) \<and>
              getitem (heap sb (metadatas ! i)) ''item_type'' = Some (PyStr (item_types ! i))"
      by blast
  qed
  from keys addrs unshared dist
  show "(\<forall>a k. k \<noteq> ''content'' \<and> k \<noteq> ''item_type'' \<longrightarrow> getitem (heap sb a) k = getitem (heap s a) k) \<and>
      (\<forall>a. a \<notin> set metadatas \<longrightarrow> heap sb a = heap s a) \<and>
      ((\<exists>ids. rb = Inr ids) \<longrightarrow>
         (\<forall>i < length metadatas.
            (\<forall>j. i < j \<and> j < length metadatas \<longrightarrow> metadatas ! j \<noteq> metadatas ! i) \<longrightarrow>
              getitem (heap sb (metadatas ! i)) ''content'' = Some (PyStr (contents ! i)) \<and>
              getitem (heap sb (metadatas ! i)) ''item_type'' = Some (PyStr (item_types ! i)))) \<and>
      ((\<exists>ids. rb = Inr ids) \<and> distinct metadatas \<longrightarrow>
         (\<forall>i < length metadatas.
              getitem (heap sb (metadatas ! i)) ''content'' = Some (PyStr (contents ! i)) \<and>
              getitem (heap sb (metadatas ! i)) ''item_type'' = Some (PyStr (item_types ! i))))"
    by (intro conjI)
qed

theorem metadata_merged_in_place_witness:
  "add_item stub_env stub_state ''hello'' 0 ''article''
     = (fst (add_item stub_env stub_state ''hello'' 0 ''article''),
        snd (add_item stub_env stub_state ''hello'' 0 ''article'')) \<and>
   getitem (heap (snd (add_item stub_env stub_state ''hello'' 0 ''article'')) 0) ''content''
     = Some (PyStr ''hello'') \<and>
   getitem (heap (snd (add_item stub_env stub_state ''hello'' 0 ''article'')) 0) ''item_type''
     = Some (PyStr ''article'') \<and>
   fst (bulk_add_items stub_env stub_state [''x'', ''y''] [0, 1] [''t'', ''u''])
     = Inr [''item_0'', ''item_1''] \<and>
   distinct [0, 1 :: nat] \<and>
   getitem (heap (snd (bulk_add_items stub_env stub_state [''x'', ''y''] [0, 1] [''t'', ''u''])) 0) ''content''
     = Some (PyStr ''x'') \<and>
   getitem (heap (snd (bulk_add_items stub_env stub_state [''x'', ''y''] [0, 1] [''t'', ''u''])) 1) ''item_type''
     = Some (PyStr ''u'')"
proof -
  let ?a = "add_item stub_env stub_state ''hello'' 0 ''article''"
  let ?b = "bulk_add_items stub_env stub_state [''x'', ''y''] [0, 1] [''t'', ''u'']"
  note T = metadata_merged_in_place [where env = stub_env and s = stub_state
      and content = "''hello''" and metadata = 0 and item_type = "''article''"
      and r = "fst ?a" and s' = "snd ?a"
      and contents = "[''x'', ''y'']" and metadatas = "[0, 1]" and item_types = "[''t'', ''u'']"
      and rb = "fst ?b" and sb = "snd ?b"]
  have a: "?a = (fst ?a, snd ?a)" by simp
  have b: "?b = (fst ?b, snd ?b)" by simp
  have ok: "fst ?b = Inr [''item_0'', ''item_1'']"
    by (simp add: engine_defs stub_defs)
  have d: "distinct [0, 1 :: nat]" by simp
  from T a have A: "getitem (heap (snd ?a) 0) ''content'' = Some (PyStr ''hello'') \<and>
      getitem (heap (snd ?a) 0) ''item_type'' = Some (PyStr ''article'')"
    by blast
  from T b ok d have B: "\<forall>i < length [0, 1 :: nat].
      getitem (heap (snd ?b) ([0, 1] ! i)) ''content'' = Some (PyStr ([''x'', ''y''] ! i)) \<and>
      getitem (heap (snd ?b) ([0, 1] ! i)) ''item_type'' = Some (PyStr ([''t'', ''u''] ! i))"
    by blast
  from B [rule_format, of 0] B [rule_format, of 1] A a ok d show ?thesis
    by simp
qed

text \<open>
  C10 as stated fails when one dictionary object is passed at two positions of a batch
  (as in \<open>[{}] * 2\<close>): after the call it holds the content and type of the last position,
  not those of the first, and both upserted vectors carry that metadata.
\<close>

theorem metadata_shared_counterexample:
  "fst (bulk_add_items stub_env stub_state [''x'', ''y''] [0, 0] [''t'', ''u''])
     = Inr [''item_0'', ''item_1''] \<and>
   getitem (heap (snd (bulk_add_items stub_env stub_state [''x'', ''y''] [0, 0] [''t'', ''u'']))
              ([0, 0] ! 0)) ''content''
     = Some (PyStr ''y'') \<and>
   getitem (heap (snd (bulk_add_items stub_env stub_state [''x'', ''y''] [0, 0] [''t'', ''u'']))
              ([0, 0] ! 0)) ''content''
     \<noteq> Some (PyStr ([''x'', ''y''] ! 0)) \<and>
   getitem (heap (snd (bulk_add_items stub_env stub_state [''x'', ''y''] [0, 0] [''t'', ''u'']))
              ([0, 0] ! 0)) ''item_type''
     \<noteq> Some (PyStr ([''t'', ''u''] ! 0)) \<and>
   trace (snd (bulk_add_items stub_env stub_state [''x'', ''y''] [0, 0] [''t'', ''u'']))
     = [EvGetEmbedding ''x'', EvGetEmbedding ''y'',
        EvUpsert
          [\<lparr>vec_id = ''item_0'', vec_values = [1],
             vec_metadata = [(''content'', PyStr ''y''), (''item_type'', PyStr ''u'')]\<rparr>,
           \<lparr>vec_id = ''item_1'', vec_values = [1],
             vec_metadata = [(''content'', PyStr ''y''), (''item_type'', PyStr ''u'')]\<rparr>],
        EvDump []]"
  by (simp add: engine_defs stub_defs)

end
